theory Spec2Isabelle
  imports Complex_Main "HOL-Library.Word"
begin

section \<open>Strings and values of the host language\<close>

text \<open>
  A TypeScript string is a sequence of UTF-16 code units. A literal of the source is
  written \<open>js ''...''\<close>: the code units of an ASCII text.
\<close>

type_synonym cu = "16 word"
type_synonym jsstring = "cu list"

definition js :: "string \<Rightarrow> jsstring" where
  "js s = map of_char s"

text \<open>
  An optional string parameter (\<open>agentId?: string\<close>) is \<open>None\<close> when it is
  \<open>undefined\<close>. In a condition such a value counts as true when it is defined and is
  not the empty string.
\<close>

fun truthy :: "jsstring option \<Rightarrow> bool" where
  "truthy None = False"
| "truthy (Some s) = (s \<noteq> [])"

text \<open>
  A value that reaches a parameter declared \<open>string\<close> at run time: the type is not
  checked there, so \<open>sanitizeQuery\<close> and \<open>needsSanitization\<close> test for it.
  \<open>JObject\<close> stands for every value whose \<open>typeof\<close> is none of the others
  (objects, arrays, functions). Numbers are only copied by this code and are reals here.
\<close>

datatype js_value = Undefined | Null | Str jsstring | JBool bool | JNum real | JObject

text \<open>What a call can throw: a value thrown by host code, or the error of a failed request.\<close>

datatype exn = Thrown jsstring | HttpError nat jsstring

section \<open>Configuration and the container tag (types.ts)\<close>

datatype memory_mode = Tandem | Primary | Off

text \<open>
  \<open>containerScope\<close> is kept as the string the configuration holds: the schema names
  \<open>agent\<close> and \<open>session\<close>, \<open>parseConfig\<close> copies whatever value is there, and
  \<open>resolveContainerTag\<close> has a \<open>default\<close> branch for every other value.
\<close>

record supermemory_config =
  apiKey :: jsstring
  mode :: memory_mode
  containerTag :: "jsstring option"
  containerScope :: "jsstring option"
  autoRecall :: bool
  threshold :: real
  baseUrl :: jsstring

definition resolveContainerTag ::
  "supermemory_config \<Rightarrow> jsstring option \<Rightarrow> jsstring option \<Rightarrow> jsstring option" where
  "resolveContainerTag config agentId sessionKey =
     (let prefix = (if truthy (containerTag config) then the (containerTag config) @ js '':'' else []) in
      if containerScope config = Some (js ''session'') then
        (if truthy sessionKey then Some (prefix @ the sessionKey)
         else if truthy agentId then Some (prefix @ the agentId)
         else containerTag config)
      else
        (if truthy agentId then Some (prefix @ the agentId)
         else containerTag config))"

text \<open>
  The prefix in the words of the specification: \<open>containerTag + ":"\<close> when the tag is
  set and non-empty, the empty string otherwise.
\<close>

definition spec_prefix :: "jsstring option \<Rightarrow> jsstring" where
  "spec_prefix tag = (case tag of Some t \<Rightarrow> (if t \<noteq> [] then t @ js '':'' else []) | None \<Rightarrow> [])"

section \<open>The client (supermemory-client.ts)\<close>

text \<open>
  The response of \<open>POST /v3/search\<close>. \<open>metadata\<close> is a record of unknown values that
  is only copied: its type is the parameter \<open>'m\<close>. The fields that \<open>search\<close> reads
  with \<open>??\<close> may be missing.
\<close>

record supermemory_chunk =
  content :: jsstring
  score :: real

record 'm supermemory_document_result =
  documentId :: jsstring
  chunks :: "supermemory_chunk list option"
  metadata :: "'m option"

record 'm supermemory_search_response =
  results :: "'m supermemory_document_result list option"

record 'm supermemory_search_result =
  result_id :: jsstring
  result_content :: jsstring
  result_score :: real
  result_metadata :: "'m option"

record search_params =
  sp_q :: jsstring
  sp_containerTag :: "jsstring option"
  sp_limit :: "real option"
  sp_chunkThreshold :: "real option"
  sp_rewriteQuery :: "bool option"

record search_body =
  body_q :: jsstring
  body_containerTags :: "jsstring list option"
  body_limit :: "real option"
  body_chunkThreshold :: "real option"
  body_rewriteQuery :: "bool option"

record 'm http_response =
  resp_ok :: bool
  resp_status :: nat
  resp_text :: jsstring
  resp_json :: "'m supermemory_search_response"

text \<open>
  A client is the remote service as \<open>fetch\<close> reaches it with the client's key and base
  URL: it answers a request body with a response, or the call throws (a rejected
  \<open>fetch\<close>, a body that is not JSON). The URL, the method and the headers are the same
  in every call and are left out.
\<close>

type_synonym 'm client = "search_body \<Rightarrow> exn + 'm http_response"

text \<open>The two nested \<open>for\<close> loops of \<open>search\<close>, each \<open>push\<close> appending to \<open>results\<close>.\<close>

fun push_chunks ::
  "'m supermemory_document_result \<Rightarrow> supermemory_chunk list \<Rightarrow>
   'm supermemory_search_result list \<Rightarrow> 'm supermemory_search_result list" where
  "push_chunks doc [] acc = acc"
| "push_chunks doc (chunk # rest) acc =
     push_chunks doc rest
       (acc @ [\<lparr>result_id = documentId doc, result_content = content chunk,
                result_score = score chunk, result_metadata = metadata doc\<rparr>])"

fun flatten_documents ::
  "'m supermemory_document_result list \<Rightarrow> 'm supermemory_search_result list \<Rightarrow>
   'm supermemory_search_result list" where
  "flatten_documents [] acc = acc"
| "flatten_documents (doc # rest) acc =
     flatten_documents rest
       (push_chunks doc (case chunks doc of None \<Rightarrow> [] | Some cs \<Rightarrow> cs) acc)"

definition search :: "'m client \<Rightarrow> search_params \<Rightarrow> exn + 'm supermemory_search_result list" where
  "search fetch params =
     (let body = \<lparr>body_q = sp_q params,
                  body_containerTags =
                    (if truthy (sp_containerTag params) then Some [the (sp_containerTag params)] else None),
                  body_limit = sp_limit params,
                  body_chunkThreshold = sp_chunkThreshold params,
                  body_rewriteQuery = sp_rewriteQuery params\<rparr> in
      case fetch body of
        Inl e \<Rightarrow> Inl e
      | Inr response \<Rightarrow>
          if \<not> resp_ok response then Inl (HttpError (resp_status response) (resp_text response))
          else Inr (flatten_documents
                      (case results (resp_json response) of None \<Rightarrow> [] | Some ds \<Rightarrow> ds) []))"

text \<open>
  The flat list in the words of the specification: documents in the order of the
  response, the chunks of each in their order, every entry with its document's id and
  metadata and its chunk's content and score.
\<close>

definition flat_entry ::
  "'m supermemory_document_result \<Rightarrow> supermemory_chunk \<Rightarrow> 'm supermemory_search_result" where
  "flat_entry doc chunk =
     \<lparr>result_id = documentId doc, result_content = content chunk,
      result_score = score chunk, result_metadata = metadata doc\<rparr>"

definition spec_flatten ::
  "'m supermemory_search_response \<Rightarrow> 'm supermemory_search_result list" where
  "spec_flatten data =
     concat (map (\<lambda>doc. map (flat_entry doc) (case chunks doc of None \<Rightarrow> [] | Some cs \<Rightarrow> cs))
               (case results data of None \<Rightarrow> [] | Some ds \<Rightarrow> ds))"

section \<open>Regular expressions\<close>

text \<open>
  The patterns of sanitize-query.ts use character classes, literal text, quantifiers on
  a class, optional groups, alternatives, \<open>^\<close> and \<open>\b\<close>. A class is a set of code
  units: \<open>\d\<close>, \<open>\s\<close> (white space and line terminators), \<open>\w\<close>, a bracket
  expression and its negation.
\<close>

datatype cset = CDigit | CSpace | CWord | COneOf jsstring | CEither cset cset | CNot cset

fun in_cset :: "cset \<Rightarrow> cu \<Rightarrow> bool" where
  "in_cset CDigit c = (0x30 \<le> c \<and> c \<le> 0x39)"
| "in_cset CSpace c =
     (c \<in> set [0x09, 0x0A, 0x0B, 0x0C, 0x0D, 0x20, 0xA0, 0x1680, 0x2028, 0x2029,
                0x202F, 0x205F, 0x3000, 0xFEFF]
      \<or> (0x2000 \<le> c \<and> c \<le> 0x200A))"
| "in_cset CWord c =
     ((0x41 \<le> c \<and> c \<le> 0x5A) \<or> (0x61 \<le> c \<and> c \<le> 0x7A)
      \<or> (0x30 \<le> c \<and> c \<le> 0x39) \<or> c = 0x5F)"
| "in_cset (COneOf cs) c = (c \<in> set cs)"
| "in_cset (CEither a b) c = (in_cset a c \<or> in_cset b c)"
| "in_cset (CNot a) c = (\<not> in_cset a c)"

text \<open>
  Under the flag \<open>i\<close> a literal letter of a pattern matches both of its cases. The
  literals of these patterns are ASCII, and without the flag \<open>u\<close> no code unit from
  128 on is folded onto an ASCII letter, so folding the letters a to z is enough; the
  classes of these patterns (\<open>\s\<close>, \<open>\d\<close>, \<open>\w\<close>, quotes, brackets) contain both
  cases of every letter they contain and are not changed by the flag.
\<close>

definition canon :: "cu \<Rightarrow> cu" where
  "canon c = (if 0x61 \<le> c \<and> c \<le> 0x7A then c - 0x20 else c)"

definition same_char :: "bool \<Rightarrow> cu \<Rightarrow> cu \<Rightarrow> bool" where
  "same_char ic t c = (if ic then canon c = canon t else c = t)"

datatype regex =
    Bol
  | WordB
  | Txt jsstring
  | Cls cset
  | Rep cset nat "nat option"
  | Seq regex regex
  | Alt regex regex
  | Opt regex

text \<open>
  A position in the subject is a pair: the code units before it, nearest first, and the
  code units from it on. Matching a pattern at a position gives the positions where a
  match can end, in the order in which backtracking tries them: the head of the list is
  the match the engine reports. A quantifier is greedy (more repetitions first), an
  alternative prefers its left branch, an optional group is tried before it is skipped.
\<close>

type_synonym zipper = "cu list \<times> cu list"

fun word_at :: "cu list \<Rightarrow> bool" where
  "word_at [] = False"
| "word_at (c # _) = in_cset CWord c"

fun match_txt :: "bool \<Rightarrow> cu list \<Rightarrow> cu list \<Rightarrow> cu list \<Rightarrow> zipper list" where
  "match_txt ic [] l s = [(l, s)]"
| "match_txt ic (t # ts) l [] = []"
| "match_txt ic (t # ts) l (c # cs) =
     (if same_char ic t c then match_txt ic ts (c # l) cs else [])"

fun match_rep :: "cset \<Rightarrow> nat \<Rightarrow> nat option \<Rightarrow> cu list \<Rightarrow> cu list \<Rightarrow> zipper list" where
  "match_rep P lo hi l [] = (if lo = 0 then [(l, [])] else [])"
| "match_rep P lo hi l (c # cs) =
     (if in_cset P c \<and> hi \<noteq> Some 0
      then match_rep P (lo - 1) (map_option (\<lambda>h. h - 1) hi) (c # l) cs else [])
     @ (if lo = 0 then [(l, c # cs)] else [])"

fun rmatch :: "bool \<Rightarrow> regex \<Rightarrow> zipper \<Rightarrow> zipper list" where
  "rmatch ic Bol (l, s) = (if l = [] then [(l, s)] else [])"
| "rmatch ic WordB (l, s) = (if word_at l \<noteq> word_at s then [(l, s)] else [])"
| "rmatch ic (Txt t) (l, s) = match_txt ic t l s"
| "rmatch ic (Cls P) (l, s) =
     (case s of [] \<Rightarrow> [] | c # cs \<Rightarrow> if in_cset P c then [(c # l, cs)] else [])"
| "rmatch ic (Rep P lo hi) (l, s) = match_rep P lo hi l s"
| "rmatch ic (Seq a b) z = concat (map (rmatch ic b) (rmatch ic a z))"
| "rmatch ic (Alt a b) z = rmatch ic a z @ rmatch ic b z"
| "rmatch ic (Opt a) z = rmatch ic a z @ [z]"

fun seqs :: "regex list \<Rightarrow> regex" where
  "seqs [] = Txt []"
| "seqs [r] = r"
| "seqs (r # rs) = Seq r (seqs rs)"

fun alts :: "regex list \<Rightarrow> regex" where
  "alts [] = Txt []"
| "alts [r] = r"
| "alts (r # rs) = Alt r (alts rs)"

text \<open>A regular expression literal: its pattern and its flags \<open>i\<close> and \<open>g\<close>.\<close>

record regexp =
  source :: regex
  ignoreCase :: bool
  global :: bool

text \<open>
  The first match at or after a position, as the index where it ends; \<open>None\<close> when no
  position to the end of the subject has a match.
\<close>

fun exec_from :: "regexp \<Rightarrow> cu list \<Rightarrow> cu list \<Rightarrow> nat option" where
  "exec_from r l [] =
     (case rmatch (ignoreCase r) (source r) (l, []) of
        [] \<Rightarrow> None
      | (l', s') # _ \<Rightarrow> Some (length l'))"
| "exec_from r l (c # cs) =
     (case rmatch (ignoreCase r) (source r) (l, c # cs) of
        [] \<Rightarrow> exec_from r (c # l) cs
      | (l', s') # _ \<Rightarrow> Some (length l'))"

text \<open>
  \<open>RegExp.prototype.test\<close>, with the \<open>lastIndex\<close> of the expression before and after
  the call. A global expression starts at \<open>lastIndex\<close> and leaves there the end of the
  match, or 0 when it finds none; an expression without \<open>g\<close> starts at 0 and leaves
  \<open>lastIndex\<close> alone.
\<close>

definition regexp_test :: "regexp \<Rightarrow> nat \<Rightarrow> jsstring \<Rightarrow> bool \<times> nat" where
  "regexp_test r lastIndex s =
     (let start = (if global r then lastIndex else 0) in
      if length s < start then (False, if global r then 0 else lastIndex)
      else (case exec_from r (rev (take start s)) (drop start s) of
              None \<Rightarrow> (False, if global r then 0 else lastIndex)
            | Some e \<Rightarrow> (True, if global r then e else lastIndex)))"

text \<open>
  \<open>String.prototype.replace\<close> with an expression and a replacement text without
  \<open>$\<close>. With the flag \<open>g\<close> every match is replaced, each search starting where the
  last match ended (one further after an empty match): \<open>k\<close> counts the code units of
  the current match that the scan still has to pass. Without \<open>g\<close> only the first match
  is replaced.
\<close>

fun replace_loop :: "regexp \<Rightarrow> jsstring \<Rightarrow> nat \<Rightarrow> cu list \<Rightarrow> cu list \<Rightarrow> jsstring" where
  "replace_loop r rep k l [] =
     (if k = 0 \<and> rmatch (ignoreCase r) (source r) (l, []) \<noteq> [] then rep else [])"
| "replace_loop r rep k l (c # cs) =
     (if 0 < k then replace_loop r rep (k - 1) (c # l) cs
      else (case rmatch (ignoreCase r) (source r) (l, c # cs) of
              [] \<Rightarrow> c # replace_loop r rep 0 (c # l) cs
            | (l', s') # _ \<Rightarrow>
                (if length s' = Suc (length cs) then rep @ c # replace_loop r rep 0 (c # l) cs
                 else rep @ replace_loop r rep (length cs - length s') (c # l) cs)))"

fun replace_first :: "regexp \<Rightarrow> jsstring \<Rightarrow> cu list \<Rightarrow> cu list \<Rightarrow> jsstring" where
  "replace_first r rep l [] =
     (if rmatch (ignoreCase r) (source r) (l, []) \<noteq> [] then rep else [])"
| "replace_first r rep l (c # cs) =
     (case rmatch (ignoreCase r) (source r) (l, c # cs) of
        [] \<Rightarrow> c # replace_first r rep (c # l) cs
      | (l', s') # _ \<Rightarrow> rep @ s')"

definition js_replace :: "jsstring \<Rightarrow> regexp \<Rightarrow> jsstring \<Rightarrow> jsstring" where
  "js_replace s r rep =
     (if global r then replace_loop r rep 0 [] s else replace_first r rep [] s)"

text \<open>\<open>String.prototype.trim\<close>: white space and line terminators off both ends.\<close>

definition js_trim :: "jsstring \<Rightarrow> jsstring" where
  "js_trim s = rev (dropWhile (in_cset CSpace) (rev (dropWhile (in_cset CSpace) s)))"

section \<open>Query sanitization (sanitize-query.ts)\<close>

definition digits :: "nat \<Rightarrow> regex" where
  "digits n = Rep CDigit n (Some n)"

definition CHANNEL_METADATA_PATTERN :: regexp where
  "CHANNEL_METADATA_PATTERN =
     \<lparr>source =
        seqs [Bol, Rep CSpace 0 None, Txt (js ''[''),
              alts (map (\<lambda>name. Txt (js name))
                     [''Telegram'', ''Discord'', ''Slack'', ''Signal'', ''WhatsApp'', ''iMessage'',
                      ''SMS'', ''Matrix'', ''Teams'', ''Zalo'', ''Web'', ''WebChat'', ''Google Chat'',
                      ''BlueBubbles'', ''Zalo Personal'']),
              Rep (CNot (COneOf (js '']''))) 0 None, Txt (js '']''), Rep CSpace 0 None],
      ignoreCase = True, global = False\<rparr>"

definition TIMESTAMP_PATTERNS :: "regexp list" where
  "TIMESTAMP_PATTERNS =
     [\<lparr>source =
         seqs [digits 4, Txt (js ''-''), digits 2, Txt (js ''-''), digits 2,
               Cls (COneOf (js ''T '')), digits 2, Txt (js '':''), digits 2,
               Opt (Seq (Txt (js '':'')) (digits 2)),
               Opt (Seq (Txt (js ''.'')) (Rep CDigit 1 None)),
               Opt (Alt (Txt (js ''Z''))
                        (seqs [Cls (COneOf (js ''+-'')), digits 2, Opt (Txt (js '':'')), digits 2])),
               Rep CSpace 0 None, Opt (Txt (js ''UTC''))],
       ignoreCase = False, global = True\<rparr>,
      \<lparr>source = seqs [WordB, Rep CDigit 10 (Some 13), WordB],
       ignoreCase = False, global = True\<rparr>,
      \<lparr>source = seqs [Txt (js ''+''), Rep CDigit 1 None, Cls (COneOf (js ''smhd'')), WordB],
       ignoreCase = False, global = True\<rparr>]"

text \<open>The class \<open>["']\<close> is written with the code units 0x22 and 0x27 of the two quotes.\<close>

definition USER_ID_PATTERNS :: "regexp list" where
  "USER_ID_PATTERNS =
     [\<lparr>source = seqs [WordB, Txt (js ''id:''), Rep CSpace 0 None, Rep CDigit 1 None, WordB],
       ignoreCase = True, global = True\<rparr>,
      \<lparr>source =
         seqs [WordB, Txt (js ''user''), Opt (Txt (js ''_'')), Txt (js ''id:''), Rep CSpace 0 None,
               Opt (Cls (COneOf [0x22, 0x27])), Rep (CEither CWord (COneOf (js ''-''))) 1 None,
               Opt (Cls (COneOf [0x22, 0x27])), WordB],
       ignoreCase = True, global = True\<rparr>,
      \<lparr>source =
         seqs [WordB, Txt (js ''chat''), Opt (Txt (js ''_'')), Txt (js ''id:''), Rep CSpace 0 None,
               Rep CDigit 1 None, WordB],
       ignoreCase = True, global = True\<rparr>]"

definition JSON_ARTIFACT_PATTERNS :: "regexp list" where
  "JSON_ARTIFACT_PATTERNS =
     [\<lparr>source =
         seqs [Txt (js ''{''), Rep (CNot (COneOf (js ''{}''))) 0 None, Txt [0x22],
               alts [Txt (js ''id''), Txt (js ''user''), Txt (js ''chat''), Txt (js ''message'')],
               Txt [0x22], Rep (CNot (COneOf (js ''{}''))) 0 None, Txt (js ''}'')],
       ignoreCase = False, global = True\<rparr>,
      \<lparr>source =
         seqs [Txt (js ''[''), Rep CSpace 0 None, Txt (js ''{''),
               Rep (CNot (COneOf (js ''[]''))) 0 None, Txt (js ''}''), Rep CSpace 0 None,
               Txt (js '']'')],
       ignoreCase = False, global = True\<rparr>]"

text \<open>The expression \<open>/\s+/g\<close> of the last step.\<close>

definition WHITESPACE_RUN :: regexp where
  "WHITESPACE_RUN = \<lparr>source = Rep CSpace 1 None, ignoreCase = False, global = True\<rparr>"

text \<open>
  The host's \<open>stripEnvelope\<close> is a function of the SDK that this repository does not
  contain; it is a parameter, and it may throw. \<open>require\<close> either throws, or gives a
  module without such a function, or gives one with it. The module variable
  \<open>stripEnvelopeImpl\<close> is \<open>None\<close> while it is \<open>undefined\<close>, \<open>Some None\<close> once it is
  \<open>null\<close>, and \<open>Some (Some f)\<close> once it holds the function.
\<close>

type_synonym strip_fn = "jsstring \<Rightarrow> exn + jsstring"

datatype sdk = RequireThrows | NoStripEnvelope | Exports strip_fn

type_synonym strip_slot = "strip_fn option option"

definition getStripEnvelope :: "sdk \<Rightarrow> strip_slot \<Rightarrow> strip_fn option \<times> strip_slot" where
  "getStripEnvelope host stripEnvelopeImpl =
     (case stripEnvelopeImpl of
        Some cached \<Rightarrow> (cached, stripEnvelopeImpl)
      | None \<Rightarrow>
          (case host of
             Exports f \<Rightarrow> (Some f, Some (Some f))
           | NoStripEnvelope \<Rightarrow> (None, Some None)
           | RequireThrows \<Rightarrow> (None, Some None)))"

definition stripChannelEnvelope ::
  "sdk \<Rightarrow> strip_slot \<Rightarrow> jsstring \<Rightarrow> (exn + jsstring) \<times> strip_slot" where
  "stripChannelEnvelope host slot text =
     (case getStripEnvelope host slot of
        (Some impl, slot') \<Rightarrow> (impl text, slot')
      | (None, slot') \<Rightarrow> (Inr (js_replace text CHANNEL_METADATA_PATTERN []), slot'))"

text \<open>One \<open>for\<close> loop of \<open>sanitizeQuery\<close>: each pattern of a list in turn.\<close>

fun replace_each :: "regexp list \<Rightarrow> jsstring \<Rightarrow> jsstring" where
  "replace_each [] sanitized = sanitized"
| "replace_each (pattern # rest) sanitized =
     replace_each rest (js_replace sanitized pattern (js '' ''))"

definition sanitizeQuery ::
  "sdk \<Rightarrow> strip_slot \<Rightarrow> js_value \<Rightarrow> (exn + jsstring) \<times> strip_slot" where
  "sanitizeQuery host slot query =
     (case query of
        Str text \<Rightarrow>
          (if text = [] then (Inr [], slot)
           else (case stripChannelEnvelope host slot text of
                   (Inl e, slot') \<Rightarrow> (Inl e, slot')
                 | (Inr stripped, slot') \<Rightarrow>
                     (Inr (js_trim
                             (js_replace
                                (replace_each JSON_ARTIFACT_PATTERNS
                                   (replace_each USER_ID_PATTERNS
                                      (replace_each TIMESTAMP_PATTERNS stripped)))
                                WHITESPACE_RUN (js '' ''))),
                      slot')))
      | _ \<Rightarrow> (Inr [], slot))"

text \<open>
  \<open>needsSanitization\<close> calls \<open>test\<close> on the shared expressions, which writes their
  \<open>lastIndex\<close>: the indices are state, passed in and returned. One \<open>for\<close> loop sets
  the index of each pattern to 0, tests it, and returns at the first match.
\<close>

record last_indices =
  li_channel :: nat
  li_timestamp :: "nat list"
  li_user_id :: "nat list"
  li_json :: "nat list"

fun test_each :: "regexp list \<Rightarrow> nat list \<Rightarrow> jsstring \<Rightarrow> bool \<times> nat list" where
  "test_each [] lis text = (False, lis)"
| "test_each (pattern # rest) lis text =
     (case regexp_test pattern 0 text of
        (True, li') \<Rightarrow> (True, li' # tl lis)
      | (False, li') \<Rightarrow>
          (case test_each rest (tl lis) text of (found, lis') \<Rightarrow> (found, li' # lis')))"

definition needsSanitization :: "last_indices \<Rightarrow> js_value \<Rightarrow> bool \<times> last_indices" where
  "needsSanitization st query =
     (case query of
        Str text \<Rightarrow>
          (if text = [] then (False, st)
           else (case regexp_test CHANNEL_METADATA_PATTERN (li_channel st) text of
                   (True, c) \<Rightarrow> (True, st\<lparr>li_channel := c\<rparr>)
                 | (False, c) \<Rightarrow>
                     (case test_each TIMESTAMP_PATTERNS (li_timestamp st) text of
                        (True, t) \<Rightarrow> (True, st\<lparr>li_channel := c, li_timestamp := t\<rparr>)
                      | (False, t) \<Rightarrow>
                          (case test_each USER_ID_PATTERNS (li_user_id st) text of
                             (True, u) \<Rightarrow>
                               (True, st\<lparr>li_channel := c, li_timestamp := t, li_user_id := u\<rparr>)
                           | (False, u) \<Rightarrow>
                               (case test_each JSON_ARTIFACT_PATTERNS (li_json st) text of
                                  (found, j) \<Rightarrow>
                                    (found, st\<lparr>li_channel := c, li_timestamp := t,
                                                li_user_id := u, li_json := j\<rparr>))))))
      | _ \<Rightarrow> (False, st))"

section \<open>The recall hook (hooks.ts)\<close>

text \<open>
  The handler of \<open>before_agent_start\<close>. Its result is what the promise settles to,
  together with the calls it made to \<open>client.search\<close> and the new value of
  \<open>stripEnvelopeImpl\<close>. The logger is left out. \<open>sanitizeQuery\<close> is called outside
  the \<open>try\<close> block, so what the host's function throws rejects the promise.
\<close>

record 'm hook_context =
  hc_client :: "'m client option"
  hc_config :: supermemory_config

datatype hook_result = Void | PrependContext jsstring | Rejected exn

fun join_lines :: "jsstring list \<Rightarrow> jsstring" where
  "join_lines [] = []"
| "join_lines [x] = x"
| "join_lines (x # xs) = x @ [0x0A] @ join_lines xs"

definition createBeforeAgentStartHandler ::
  "sdk \<Rightarrow> 'm hook_context \<Rightarrow> strip_slot \<Rightarrow> jsstring \<Rightarrow> jsstring option \<Rightarrow> jsstring option \<Rightarrow>
   hook_result \<times> search_params list \<times> strip_slot" where
  "createBeforeAgentStartHandler host ctx slot prompt agentId sessionKey =
     (case hc_client ctx of
        None \<Rightarrow> (Void, [], slot)
      | Some client \<Rightarrow>
          if \<not> autoRecall (hc_config ctx) \<or> mode (hc_config ctx) = Off then (Void, [], slot)
          else if prompt = [] \<or> length prompt < 5 then (Void, [], slot)
          else (case sanitizeQuery host slot (Str prompt) of
                  (Inl e, slot') \<Rightarrow> (Rejected e, [], slot')
                | (Inr sanitizedQuery, slot') \<Rightarrow>
                    if sanitizedQuery = [] \<or> length sanitizedQuery < 3 then (Void, [], slot')
                    else
                      (let tag = resolveContainerTag (hc_config ctx) agentId sessionKey;
                           params = \<lparr>sp_q = sanitizedQuery, sp_containerTag = tag,
                                     sp_limit = Some 5,
                                     sp_chunkThreshold = Some (threshold (hc_config ctx)),
                                     sp_rewriteQuery = None\<rparr>
                       in case search client params of
                            Inl e \<Rightarrow> (Void, [params], slot')
                          | Inr found \<Rightarrow>
                              if length found = 0 then (Void, [params], slot')
                              else (PrependContext
                                      (js ''<supermemory-context>'' @ [0x0A] @
                                       js ''The following memories from Supermemory may be relevant:'' @ [0x0A] @
                                       join_lines (map (\<lambda>r. js ''- '' @ result_content r) (take 5 found)) @
                                       [0x0A] @ js ''</supermemory-context>''),
                                    [params], slot'))))"

section \<open>The search tools (tools.ts)\<close>

text \<open>
  \<open>execute\<close> of the two tools, in the revision of tools.ts that imports
  \<open>sanitizeQuery\<close> and \<open>resolveContainerTag\<close>. The result keeps what the tool reports
  (too short with the original query, nothing found, the memories found, the error
  caught) and not the wording of its text, which formats numbers.
\<close>

record 'm tool_context =
  tc_client :: "'m client"
  tc_config :: supermemory_config
  tc_agentId :: jsstring

datatype 'm tool_result =
    QueryTooShort jsstring
  | NoMemories
  | Memories "'m supermemory_search_result list"
  | SearchFailed exn
  | ToolRejected exn

definition createSupermemorySearchTool ::
  "sdk \<Rightarrow> 'm tool_context \<Rightarrow> strip_slot \<Rightarrow> jsstring \<Rightarrow> real option \<Rightarrow>
   'm tool_result \<times> search_params list \<times> strip_slot" where
  "createSupermemorySearchTool host ctx slot query limit =
     (case sanitizeQuery host slot (Str query) of
        (Inl e, slot') \<Rightarrow> (ToolRejected e, [], slot')
      | (Inr sanitizedQuery, slot') \<Rightarrow>
          if sanitizedQuery = [] \<or> length sanitizedQuery < 2 then (QueryTooShort query, [], slot')
          else
            (let tag = resolveContainerTag (tc_config ctx) (Some (tc_agentId ctx)) None;
                 params = \<lparr>sp_q = sanitizedQuery, sp_containerTag = tag,
                           sp_limit = Some (case limit of None \<Rightarrow> 5 | Some n \<Rightarrow> n),
                           sp_chunkThreshold = Some (threshold (tc_config ctx)),
                           sp_rewriteQuery = None\<rparr>
             in case search (tc_client ctx) params of
                  Inl e \<Rightarrow> (SearchFailed e, [params], slot')
                | Inr found \<Rightarrow>
                    if length found = 0 then (NoMemories, [params], slot')
                    else (Memories found, [params], slot')))"

definition createMemorySearchTool ::
  "sdk \<Rightarrow> 'm tool_context \<Rightarrow> strip_slot \<Rightarrow> jsstring \<Rightarrow> real option \<Rightarrow>
   'm tool_result \<times> search_params list \<times> strip_slot" where
  "createMemorySearchTool host ctx slot query limit =
     (case sanitizeQuery host slot (Str query) of
        (Inl e, slot') \<Rightarrow> (ToolRejected e, [], slot')
      | (Inr sanitizedQuery, slot') \<Rightarrow>
          if sanitizedQuery = [] \<or> length sanitizedQuery < 2 then (QueryTooShort query, [], slot')
          else
            (let tag = resolveContainerTag (tc_config ctx) (Some (tc_agentId ctx)) None;
                 params = \<lparr>sp_q = sanitizedQuery, sp_containerTag = tag,
                           sp_limit = Some (case limit of None \<Rightarrow> 5 | Some n \<Rightarrow> n),
                           sp_chunkThreshold = Some (threshold (tc_config ctx)),
                           sp_rewriteQuery = None\<rparr>
             in case search (tc_client ctx) params of
                  Inl e \<Rightarrow> (SearchFailed e, [params], slot')
                | Inr found \<Rightarrow>
                    if length found = 0 then (NoMemories, [params], slot')
                    else (Memories found, [params], slot')))"

text \<open>
  tools.ts is also present in a revision that imports neither \<open>sanitizeQuery\<close> nor
  \<open>resolveContainerTag\<close>: its \<open>execute\<close> hands the query and the configured tag to
  \<open>client.search\<close> as they are.
\<close>

record 'm plain_tool_context =
  ptc_client :: "'m client"
  ptc_config :: supermemory_config

definition createSupermemorySearchTool_plain ::
  "'m plain_tool_context \<Rightarrow> jsstring \<Rightarrow> real option \<Rightarrow> 'm tool_result \<times> search_params list" where
  "createSupermemorySearchTool_plain ctx query limit =
     (let params = \<lparr>sp_q = query, sp_containerTag = containerTag (ptc_config ctx),
                     sp_limit = Some (case limit of None \<Rightarrow> 5 | Some n \<Rightarrow> n),
                     sp_chunkThreshold = Some (threshold (ptc_config ctx)),
                     sp_rewriteQuery = None\<rparr>
      in case search (ptc_client ctx) params of
           Inl e \<Rightarrow> (SearchFailed e, [params])
         | Inr found \<Rightarrow>
             if length found = 0 then (NoMemories, [params]) else (Memories found, [params]))"

section \<open>Notions used in the proofs\<close>

text \<open>
  None of these is a function of the repository. \<open>minlen\<close> is a lower bound on the
  length of a match of a pattern. \<open>occurs r s\<close> says that the expression \<open>r\<close> has a
  match somewhere in \<open>s\<close>: a search from index 0 succeeds, which is what \<open>r.test(s)\<close>
  answers when \<open>lastIndex\<close> is 0.
\<close>

fun minlen :: "regex \<Rightarrow> nat" where
  "minlen Bol = 0"
| "minlen WordB = 0"
| "minlen (Txt t) = length t"
| "minlen (Cls P) = 1"
| "minlen (Rep P lo hi) = lo"
| "minlen (Seq a b) = minlen a + minlen b"
| "minlen (Alt a b) = min (minlen a) (minlen b)"
| "minlen (Opt a) = 0"

definition occurs :: "regexp \<Rightarrow> jsstring \<Rightarrow> bool" where
  "occurs r s = (exec_from r [] s \<noteq> None)"

text \<open>
  What \<open>replace(/\s+/g, " ")\<close> computes, written as a recursion of its own: a run of
  white space becomes one space (\<open>in_run\<close> tells that the run has begun). A text is
  \<open>single_spaced\<close> when its only white space is the space 0x20 and no two stand side
  by side.
\<close>

fun collapse :: "bool \<Rightarrow> jsstring \<Rightarrow> jsstring" where
  "collapse in_run [] = []"
| "collapse in_run (c # cs) =
     (if in_cset CSpace c then (if in_run then collapse True cs else 0x20 # collapse True cs)
      else c # collapse False cs)"

fun single_spaced :: "jsstring \<Rightarrow> bool" where
  "single_spaced [] = True"
| "single_spaced (c # cs) =
     ((in_cset CSpace c \<longrightarrow> c = 0x20 \<and> (cs = [] \<or> \<not> in_cset CSpace (hd cs))) \<and> single_spaced cs)"

text \<open>
  The steps of \<open>sanitizeQuery\<close> after the envelope step, and the whole of it when the
  envelope is stripped by the fallback pattern.
\<close>

definition scrub :: "jsstring \<Rightarrow> jsstring" where
  "scrub stripped =
     js_trim (js_replace
                (replace_each JSON_ARTIFACT_PATTERNS
                   (replace_each USER_ID_PATTERNS (replace_each TIMESTAMP_PATTERNS stripped)))
                WHITESPACE_RUN (js '' ''))"

definition fallback_sanitize :: "jsstring \<Rightarrow> jsstring" where
  "fallback_sanitize q = scrub (js_replace q CHANNEL_METADATA_PATTERN [])"

section \<open>The sanitizer in the words of the specification\<close>





section \<open>Container tag resolution\<close>

lemma js_colon: "js '':'' = [0x3A]"
  by (simp add: js_def)

lemma js_agent: "js ''agent'' = [0x61, 0x67, 0x65, 0x6E, 0x74]"
  by (simp add: js_def)

lemma js_session: "js ''session'' = [0x73, 0x65, 0x73, 0x73, 0x69, 0x6F, 0x6E]"
  by (simp add: js_def)

lemma colon_not_in_agent: "t @ js '':'' @ a \<noteq> js ''agent''"
proof
  assume "t @ js '':'' @ a = js ''agent''"
  then have "set (t @ js '':'' @ a) = set (js ''agent'')" by simp
  then have "(0x3A :: cu) \<in> set (js ''agent'')" by (auto simp: js_colon)
  then show False by (simp add: js_agent)
qed

lemma colon_not_in_session: "t @ js '':'' @ a \<noteq> js ''session''"
proof
  assume "t @ js '':'' @ a = js ''session''"
  then have "set (t @ js '':'' @ a) = set (js ''session'')" by simp
  then have "(0x3A :: cu) \<in> set (js ''session'')" by (auto simp: js_colon)
  then show False by (simp add: js_session)
qed

lemma agent_is_not_session: "js ''agent'' \<noteq> js ''session''"
  by (simp add: js_agent js_session)

lemma prefix_is_spec_prefix:
  "(if truthy tag then the tag @ js '':'' else []) = spec_prefix tag"
  by (cases tag) (simp_all add: spec_prefix_def)

lemma resolve_session_cases:
  "containerScope config = Some (js ''session'') \<Longrightarrow>
   resolveContainerTag config agentId sessionKey =
     (if truthy sessionKey then Some (spec_prefix (containerTag config) @ the sessionKey)
      else if truthy agentId then Some (spec_prefix (containerTag config) @ the agentId)
      else containerTag config)"
  by (simp add: resolveContainerTag_def prefix_is_spec_prefix)

lemma resolve_agent_cases:
  "containerScope config \<noteq> Some (js ''session'') \<Longrightarrow>
   resolveContainerTag config agentId sessionKey =
     (if truthy agentId then Some (spec_prefix (containerTag config) @ the agentId)
      else containerTag config)"
  by (simp add: resolveContainerTag_def prefix_is_spec_prefix)

text \<open>
  C1. Under \<open>containerScope = "session"\<close> the result is \<open>prefix + sessionKey\<close> when
  the session key is present and non-empty, else \<open>prefix + agentId\<close> when the agent id
  is present and non-empty, else the bare \<open>containerTag\<close> (\<open>None\<close>, that is
  \<open>undefined\<close>, when it is unset). The prefix is \<open>containerTag + ":"\<close> for a non-empty
  tag and empty otherwise (\<open>spec_prefix\<close>), and it stands once, at the front.
\<close>

theorem resolveContainerTag_session:
  assumes "containerScope config = Some (js ''session'')"
  shows "resolveContainerTag config agentId sessionKey =
           (case sessionKey of
              Some k \<Rightarrow>
                (if k \<noteq> [] then Some (spec_prefix (containerTag config) @ k)
                 else (case agentId of
                         Some a \<Rightarrow>
                           (if a \<noteq> [] then Some (spec_prefix (containerTag config) @ a)
                            else containerTag config)
                       | None \<Rightarrow> containerTag config))
            | None \<Rightarrow>
                (case agentId of
                   Some a \<Rightarrow>
                     (if a \<noteq> [] then Some (spec_prefix (containerTag config) @ a)
                      else containerTag config)
                 | None \<Rightarrow> containerTag config))"
  using assms by (simp add: resolve_session_cases split: option.splits)

theorem resolveContainerTag_session_witness:
  "resolveContainerTag
     \<lparr>apiKey = js ''k'', mode = Tandem, containerTag = Some (js ''myns''),
      containerScope = Some (js ''session''), autoRecall = True, threshold = 0.5,
      baseUrl = js ''https://api.supermemory.ai''\<rparr>
     (Some (js ''main'')) (Some (js ''agent:main:telegram:group:123''))
   = Some (js ''myns:agent:main:telegram:group:123'')"
  using resolveContainerTag_session
    [of "\<lparr>apiKey = js ''k'', mode = Tandem, containerTag = Some (js ''myns''),
          containerScope = Some (js ''session''), autoRecall = True, threshold = 0.5,
          baseUrl = js ''https://api.supermemory.ai''\<rparr>"
        "Some (js ''main'')" "Some (js ''agent:main:telegram:group:123'')"]
  by (simp add: spec_prefix_def js_def)

text \<open>
  C2, as stated, fails: the tag is the identifier, and an agent whose id is the text
  \<open>agent\<close> gets the tag \<open>agent\<close> under the scope \<open>agent\<close>.
\<close>

theorem resolveContainerTag_scope_label_counterexample:
  "resolveContainerTag
     \<lparr>apiKey = js ''k'', mode = Tandem, containerTag = None,
      containerScope = Some (js ''agent''), autoRecall = True, threshold = 0.5,
      baseUrl = js ''https://api.supermemory.ai''\<rparr>
     (Some (js ''agent'')) None
   = Some (js ''agent'')"
  by (simp add: resolveContainerTag_def js_def)

text \<open>
  C2, amended. The scope label is never the source of the tag: under the scope
  \<open>agent\<close> the result is the text \<open>agent\<close> only when the agent id or the configured
  tag is itself that text, and under the scope \<open>session\<close> the result is the text
  \<open>session\<close> only when the session key, the agent id or the configured tag is itself
  that text.
\<close>

theorem resolveContainerTag_not_scope_label:
  "(containerScope config = Some (js ''agent'') \<longrightarrow>
      agentId \<noteq> Some (js ''agent'') \<longrightarrow> containerTag config \<noteq> Some (js ''agent'') \<longrightarrow>
      resolveContainerTag config agentId sessionKey \<noteq> Some (js ''agent''))
   \<and> (containerScope config = Some (js ''session'') \<longrightarrow>
      sessionKey \<noteq> Some (js ''session'') \<longrightarrow> agentId \<noteq> Some (js ''session'') \<longrightarrow>
      containerTag config \<noteq> Some (js ''session'') \<longrightarrow>
      resolveContainerTag config agentId sessionKey \<noteq> Some (js ''session''))"
proof (intro conjI impI)
  assume scope: "containerScope config = Some (js ''agent'')"
    and a: "agentId \<noteq> Some (js ''agent'')"
    and t: "containerTag config \<noteq> Some (js ''agent'')"
  from scope have ns: "containerScope config \<noteq> Some (js ''session'')"
    by (simp add: agent_is_not_session)
  show "resolveContainerTag config agentId sessionKey \<noteq> Some (js ''agent'')"
    using a t colon_not_in_agent
    by (cases agentId; cases "containerTag config")
       (auto simp: resolve_agent_cases [OF ns] spec_prefix_def)
next
  assume scope: "containerScope config = Some (js ''session'')"
    and k: "sessionKey \<noteq> Some (js ''session'')"
    and a: "agentId \<noteq> Some (js ''session'')"
    and t: "containerTag config \<noteq> Some (js ''session'')"
  show "resolveContainerTag config agentId sessionKey \<noteq> Some (js ''session'')"
    using k a t colon_not_in_session
    by (cases agentId; cases sessionKey; cases "containerTag config")
       (auto simp: resolve_session_cases [OF scope] spec_prefix_def)
qed

theorem resolveContainerTag_not_scope_label_witness:
  "resolveContainerTag
     \<lparr>apiKey = js ''k'', mode = Tandem, containerTag = None,
      containerScope = Some (js ''agent''), autoRecall = True, threshold = 0.5,
      baseUrl = js ''https://api.supermemory.ai''\<rparr>
     (Some (js ''main'')) None
   \<noteq> Some (js ''agent'')
   \<and> resolveContainerTag
     \<lparr>apiKey = js ''k'', mode = Tandem, containerTag = None,
      containerScope = Some (js ''session''), autoRecall = True, threshold = 0.5,
      baseUrl = js ''https://api.supermemory.ai''\<rparr>
     (Some (js ''main'')) (Some (js ''agent:main:telegram:group:123''))
   \<noteq> Some (js ''session'')"
  using resolveContainerTag_not_scope_label
    [of "\<lparr>apiKey = js ''k'', mode = Tandem, containerTag = None,
          containerScope = Some (js ''agent''), autoRecall = True, threshold = 0.5,
          baseUrl = js ''https://api.supermemory.ai''\<rparr>"
        "Some (js ''main'')" None]
    resolveContainerTag_not_scope_label
    [of "\<lparr>apiKey = js ''k'', mode = Tandem, containerTag = None,
          containerScope = Some (js ''session''), autoRecall = True, threshold = 0.5,
          baseUrl = js ''https://api.supermemory.ai''\<rparr>"
        "Some (js ''main'')" "Some (js ''agent:main:telegram:group:123'')"]
  by (simp add: js_def)

text \<open>
  C8. Every value of \<open>containerScope\<close> other than \<open>session\<close>, an unset or an
  unrecognised one among them, is handled as the scope \<open>agent\<close>: the result is
  \<open>prefix + agentId\<close> when the agent id is present and non-empty, and the bare
  \<open>containerTag\<close> (possibly \<open>undefined\<close>) otherwise, whatever the session key is.
\<close>

theorem resolveContainerTag_default_is_agent:
  assumes "containerScope config \<noteq> Some (js ''session'')"
  shows "resolveContainerTag config agentId sessionKey =
           (case agentId of
              Some a \<Rightarrow>
                (if a \<noteq> [] then Some (spec_prefix (containerTag config) @ a)
                 else containerTag config)
            | None \<Rightarrow> containerTag config)
         \<and> resolveContainerTag config agentId sessionKey =
           resolveContainerTag (config\<lparr>containerScope := Some (js ''agent'')\<rparr>) agentId sessionKey"
  using assms
  by (simp add: resolve_agent_cases agent_is_not_session split: option.splits)

theorem resolveContainerTag_default_is_agent_witness:
  "resolveContainerTag
     \<lparr>apiKey = js ''k'', mode = Tandem, containerTag = Some (js ''myns''),
      containerScope = Some (js ''global''), autoRecall = True, threshold = 0.5,
      baseUrl = js ''https://api.supermemory.ai''\<rparr>
     (Some (js ''main'')) (Some (js ''agent:main:telegram:group:123''))
   = Some (js ''myns:main'')
   \<and> resolveContainerTag
     \<lparr>apiKey = js ''k'', mode = Tandem, containerTag = Some (js ''myns''),
      containerScope = None, autoRecall = True, threshold = 0.5,
      baseUrl = js ''https://api.supermemory.ai''\<rparr>
     None (Some (js ''agent:main:telegram:group:123''))
   = Some (js ''myns'')"
  using resolveContainerTag_default_is_agent
    [of "\<lparr>apiKey = js ''k'', mode = Tandem, containerTag = Some (js ''myns''),
          containerScope = Some (js ''global''), autoRecall = True, threshold = 0.5,
          baseUrl = js ''https://api.supermemory.ai''\<rparr>"
        "Some (js ''main'')" "Some (js ''agent:main:telegram:group:123'')"]
    resolveContainerTag_default_is_agent
    [of "\<lparr>apiKey = js ''k'', mode = Tandem, containerTag = Some (js ''myns''),
          containerScope = None, autoRecall = True, threshold = 0.5,
          baseUrl = js ''https://api.supermemory.ai''\<rparr>"
        None "Some (js ''agent:main:telegram:group:123'')"]
  by (simp add: spec_prefix_def js_def)

section \<open>Flattening the search response\<close>

lemma push_chunks_append: "push_chunks doc cs acc = acc @ map (flat_entry doc) cs"
  by (induction cs arbitrary: acc) (simp_all add: flat_entry_def)

lemma flatten_documents_append:
  "flatten_documents ds acc =
     acc @ concat (map (\<lambda>doc. map (flat_entry doc) (case chunks doc of None \<Rightarrow> [] | Some cs \<Rightarrow> cs)) ds)"
  by (induction ds arbitrary: acc) (simp_all add: push_chunks_append)

lemma flatten_documents_spec:
  "flatten_documents (case results data of None \<Rightarrow> [] | Some ds \<Rightarrow> ds) [] = spec_flatten data"
  by (simp add: flatten_documents_append spec_flatten_def)

text \<open>
  C9. When the remote service answers with a successful response, \<open>search\<close> returns
  the chunks of its documents in the order of the response: document after document,
  the chunks of each in their order, each entry with the \<open>documentId\<close> and metadata of
  its document and the content and score of its chunk (\<open>spec_flatten\<close>). Nothing is
  sorted or dropped.
\<close>

theorem search_flattens_in_order:
  assumes "fetch \<lparr>body_q = sp_q params,
                  body_containerTags =
                    (if truthy (sp_containerTag params) then Some [the (sp_containerTag params)] else None),
                  body_limit = sp_limit params,
                  body_chunkThreshold = sp_chunkThreshold params,
                  body_rewriteQuery = sp_rewriteQuery params\<rparr> = Inr response"
    and "resp_ok response"
  shows "search fetch params = Inr (spec_flatten (resp_json response))"
  using assms by (simp add: search_def flatten_documents_spec)

theorem search_flattens_in_order_witness:
  "search
     (\<lambda>body. Inr \<lparr>resp_ok = True, resp_status = 200, resp_text = [],
                   resp_json = \<lparr>results = Some
                     [\<lparr>documentId = js ''d1'',
                       chunks = Some [\<lparr>content = js ''a'', score = 0.2\<rparr>,
                                      \<lparr>content = js ''b'', score = 0.9\<rparr>],
                       metadata = Some (1::nat)\<rparr>,
                      \<lparr>documentId = js ''d2'', chunks = None, metadata = None\<rparr>,
                      \<lparr>documentId = js ''d3'',
                       chunks = Some [\<lparr>content = js ''c'', score = 0.5\<rparr>],
                       metadata = None\<rparr>]\<rparr>\<rparr>)
     \<lparr>sp_q = js ''tea'', sp_containerTag = None, sp_limit = Some 5,
      sp_chunkThreshold = Some 0.5, sp_rewriteQuery = None\<rparr>
   = Inr [\<lparr>result_id = js ''d1'', result_content = js ''a'', result_score = 0.2,
           result_metadata = Some 1\<rparr>,
          \<lparr>result_id = js ''d1'', result_content = js ''b'', result_score = 0.9,
           result_metadata = Some 1\<rparr>,
          \<lparr>result_id = js ''d3'', result_content = js ''c'', result_score = 0.5,
           result_metadata = None\<rparr>]"
  using search_flattens_in_order
    [of "\<lambda>body. Inr \<lparr>resp_ok = True, resp_status = 200, resp_text = [],
                   resp_json = \<lparr>results = Some
                     [\<lparr>documentId = js ''d1'',
                       chunks = Some [\<lparr>content = js ''a'', score = 0.2\<rparr>,
                                      \<lparr>content = js ''b'', score = 0.9\<rparr>],
                       metadata = Some (1::nat)\<rparr>,
                      \<lparr>documentId = js ''d2'', chunks = None, metadata = None\<rparr>,
                      \<lparr>documentId = js ''d3'',
                       chunks = Some [\<lparr>content = js ''c'', score = 0.5\<rparr>],
                       metadata = None\<rparr>]\<rparr>\<rparr>"
        "\<lparr>sp_q = js ''tea'', sp_containerTag = None, sp_limit = Some 5,
          sp_chunkThreshold = Some 0.5, sp_rewriteQuery = None\<rparr>"]
  by (simp add: spec_flatten_def flat_entry_def)

section \<open>The sanitizer on values that are not a non-empty string\<close>

text \<open>
  C7. For \<open>null\<close>, \<open>undefined\<close>, the empty string and every value that is not a
  string, \<open>sanitizeQuery\<close> returns the empty string. It returns before it looks up or
  calls the host's function, so it does not throw whatever the host does, and it
  leaves \<open>stripEnvelopeImpl\<close> as it was.
\<close>

theorem sanitizeQuery_not_a_text:
  assumes "query = Str [] \<or> (\<forall>text. query \<noteq> Str text)"
  shows "sanitizeQuery host slot query = (Inr [], slot)"
  using assms by (cases query) (simp_all add: sanitizeQuery_def)

theorem sanitizeQuery_not_a_text_witness:
  "sanitizeQuery (Exports (\<lambda>text. Inl (Thrown text))) None Null = (Inr [], None)
   \<and> sanitizeQuery (Exports (\<lambda>text. Inl (Thrown text))) None Undefined = (Inr [], None)
   \<and> sanitizeQuery (Exports (\<lambda>text. Inl (Thrown text))) None (Str []) = (Inr [], None)
   \<and> sanitizeQuery RequireThrows None (JNum 42) = (Inr [], None)
   \<and> sanitizeQuery RequireThrows None JObject = (Inr [], None)"
  using sanitizeQuery_not_a_text [of Null "Exports (\<lambda>text. Inl (Thrown text))" None]
    sanitizeQuery_not_a_text [of Undefined "Exports (\<lambda>text. Inl (Thrown text))" None]
    sanitizeQuery_not_a_text [of "Str []" "Exports (\<lambda>text. Inl (Thrown text))" None]
    sanitizeQuery_not_a_text [of "JNum 42" RequireThrows None]
    sanitizeQuery_not_a_text [of JObject RequireThrows None]
  by simp

section \<open>The matcher\<close>

lemma match_txt_span:
  "(l', s') \<in> set (match_txt ic t l s) \<Longrightarrow> \<exists>m. s = m @ s' \<and> l' = rev m @ l \<and> length m = length t"
proof (induction ic t l s rule: match_txt.induct)
  case (3 ic t ts l c cs)
  then have sc: "same_char ic t c" and mem: "(l', s') \<in> set (match_txt ic ts (c # l) cs)"
    by (auto split: if_splits)
  from 3(1) [OF sc mem] obtain m where "cs = m @ s'" "l' = rev m @ c # l" "length m = length ts"
    by blast
  then have "c # cs = (c # m) @ s' \<and> l' = rev (c # m) @ l \<and> length (c # m) = length (t # ts)"
    by simp
  then show ?case by blast
qed simp_all

lemma match_rep_span:
  "(l', s') \<in> set (match_rep P lo hi l s) \<Longrightarrow> \<exists>m. s = m @ s' \<and> l' = rev m @ l \<and> lo \<le> length m"
proof (induction s arbitrary: lo hi l)
  case Nil
  then show ?case by (auto split: if_splits)
next
  case (Cons c cs)
  from Cons.prems consider
    (more) "(l', s') \<in> set (match_rep P (lo - 1) (map_option (\<lambda>h. h - 1) hi) (c # l) cs)"
  | (stop) "lo = 0" "(l', s') = (l, c # cs)"
    by (auto split: if_splits)
  then show ?case
  proof cases
    case more
    from Cons.IH [OF more] obtain m where "cs = m @ s'" "l' = rev m @ c # l" "lo - 1 \<le> length m"
      by blast
    then have "c # cs = (c # m) @ s' \<and> l' = rev (c # m) @ l \<and> lo \<le> length (c # m)"
      by simp
    then show ?thesis by blast
  next
    case stop
    then show ?thesis by simp
  qed
qed

lemma rmatch_span:
  "(l', s') \<in> set (rmatch ic r (l, s)) \<Longrightarrow>
   \<exists>m. s = m @ s' \<and> l' = rev m @ l \<and> minlen r \<le> length m"
proof (induction r arbitrary: l s l' s')
  case (Seq a b)
  from Seq.prems obtain l1 s1 where z: "(l1, s1) \<in> set (rmatch ic a (l, s))"
    and e: "(l', s') \<in> set (rmatch ic b (l1, s1))"
    by auto
  from Seq.IH(1) [OF z] obtain m1 where m1: "s = m1 @ s1" "l1 = rev m1 @ l" "minlen a \<le> length m1"
    by blast
  from Seq.IH(2) [OF e] obtain m2 where m2: "s1 = m2 @ s'" "l' = rev m2 @ l1" "minlen b \<le> length m2"
    by blast
  from m1 m2 have "s = (m1 @ m2) @ s' \<and> l' = rev (m1 @ m2) @ l \<and> minlen (Seq a b) \<le> length (m1 @ m2)"
    by simp
  then show ?case by blast
next
  case (Alt a b)
  from Alt.prems have "(l', s') \<in> set (rmatch ic a (l, s)) \<or> (l', s') \<in> set (rmatch ic b (l, s))"
    by simp
  then show ?case
  proof
    assume "(l', s') \<in> set (rmatch ic a (l, s))"
    from Alt.IH(1) [OF this] show ?thesis by auto
  next
    assume "(l', s') \<in> set (rmatch ic b (l, s))"
    from Alt.IH(2) [OF this] show ?thesis by auto
  qed
next
  case (Opt a)
  from Opt.prems have "(l', s') \<in> set (rmatch ic a (l, s)) \<or> (l', s') = (l, s)"
    by auto
  then show ?case
  proof
    assume "(l', s') \<in> set (rmatch ic a (l, s))"
    from Opt.IH [OF this] show ?thesis by auto
  next
    assume "(l', s') = (l, s)"
    then show ?thesis by simp
  qed
next
  case (Txt t)
  then show ?case using match_txt_span [of l' s' ic t l s] by auto
next
  case (Rep P lo hi)
  then show ?case using match_rep_span [of l' s' P lo hi l s] by auto
next
  case (Cls P)
  then show ?case by (cases s) (auto split: if_splits)
qed (auto split: if_splits)

lemma rmatch_hd_length:
  assumes "rmatch (ignoreCase r) (source r) (l, s) = (l', s') # rest"
  shows "length s' + minlen (source r) \<le> length s"
proof -
  from assms have "(l', s') \<in> set (rmatch (ignoreCase r) (source r) (l, s))" by simp
  from rmatch_span [OF this] show ?thesis by auto
qed

lemma replace_loop_no_match: "exec_from r l s = None \<Longrightarrow> replace_loop r rep 0 l s = s"
  by (induction s arbitrary: l) (auto split: list.splits)

lemma replace_first_no_match: "exec_from r l s = None \<Longrightarrow> replace_first r rep l s = s"
  by (induction s arbitrary: l) (auto split: list.splits)

lemma replace_loop_length:
  assumes "1 \<le> minlen (source r)" and "length rep \<le> minlen (source r)"
  shows "k \<le> length s \<Longrightarrow> length (replace_loop r rep k l s) + k \<le> length s"
proof (induction s arbitrary: k l)
  case Nil
  have "rmatch (ignoreCase r) (source r) (l, []) = []"
  proof (cases "rmatch (ignoreCase r) (source r) (l, [])")
    case (Cons z zs)
    then show ?thesis using rmatch_hd_length [of r l "[]" "fst z" "snd z" zs] assms(1) by simp
  qed simp
  with Nil.prems show ?case by simp
next
  case (Cons c cs)
  show ?case
  proof (cases "0 < k")
    case True
    with Cons.prems have "k - 1 \<le> length cs" by simp
    from Cons.IH [OF this, of "c # l"] True show ?thesis by simp
  next
    case False
    then have k: "k = 0" by simp
    show ?thesis
    proof (cases "rmatch (ignoreCase r) (source r) (l, c # cs)")
      case Nil
      with k Cons.IH [of 0 "c # l"] show ?thesis by simp
    next
      case (Cons z zs)
      obtain l' s' where z: "z = (l', s')" by (cases z)
      from rmatch_hd_length [of r l "c # cs" l' s' zs] Cons z
      have len: "length s' + minlen (source r) \<le> Suc (length cs)" by simp
      with assms(1) have ne: "length s' \<noteq> Suc (length cs)" and k': "length cs - length s' \<le> length cs"
        by simp_all
      from Cons.IH [OF k', of "c # l"] len assms(2)
      have "length rep + length (replace_loop r rep (length cs - length s') (c # l) cs) \<le> Suc (length cs)"
        by simp
      with k Cons z ne show ?thesis by simp
    qed
  qed
qed

lemma replace_loop_shorter:
  assumes "length rep < minlen (source r)"
  shows "exec_from r l s \<noteq> None \<Longrightarrow> length (replace_loop r rep 0 l s) < length s"
proof (induction s arbitrary: l)
  case Nil
  have "rmatch (ignoreCase r) (source r) (l, []) = []"
  proof (cases "rmatch (ignoreCase r) (source r) (l, [])")
    case (Cons z zs)
    then show ?thesis using rmatch_hd_length [of r l "[]" "fst z" "snd z" zs] assms by simp
  qed simp
  with Nil show ?case by simp
next
  case (Cons c cs)
  show ?case
  proof (cases "rmatch (ignoreCase r) (source r) (l, c # cs)")
    case Nil
    with Cons.prems have "exec_from r (c # l) cs \<noteq> None" by simp
    from Cons.IH [OF this] Nil show ?thesis by simp
  next
    case (Cons z zs)
    obtain l' s' where z: "z = (l', s')" by (cases z)
    from rmatch_hd_length [of r l "c # cs" l' s' zs] Cons z
    have len: "length s' + minlen (source r) \<le> Suc (length cs)" by simp
    with assms have ne: "length s' \<noteq> Suc (length cs)" and k': "length cs - length s' \<le> length cs"
      by simp_all
    from assms have "1 \<le> minlen (source r)" "length rep \<le> minlen (source r)" by simp_all
    from replace_loop_length [OF this k', of "c # l"] len assms
    have "length rep + length (replace_loop r rep (length cs - length s') (c # l) cs) < Suc (length cs)"
      by simp
    with Cons z ne show ?thesis by simp
  qed
qed

lemma replace_first_length:
  assumes "length rep \<le> minlen (source r)"
  shows "length (replace_first r rep l s) \<le> length s"
proof (induction s arbitrary: l)
  case Nil
  show ?case
  proof (cases "rmatch (ignoreCase r) (source r) (l, [])")
    case (Cons z zs)
    then show ?thesis using rmatch_hd_length [of r l "[]" "fst z" "snd z" zs] assms by simp
  qed simp
next
  case (Cons c cs)
  show ?case
  proof (cases "rmatch (ignoreCase r) (source r) (l, c # cs)")
    case Nil
    with Cons.IH [of "c # l"] show ?thesis by simp
  next
    case (Cons z zs)
    obtain l' s' where z: "z = (l', s')" by (cases z)
    from rmatch_hd_length [of r l "c # cs" l' s' zs] Cons z assms
    show ?thesis by simp
  qed
qed

lemma replace_first_shorter:
  assumes "length rep < minlen (source r)"
  shows "exec_from r l s \<noteq> None \<Longrightarrow> length (replace_first r rep l s) < length s"
proof (induction s arbitrary: l)
  case Nil
  have "rmatch (ignoreCase r) (source r) (l, []) = []"
  proof (cases "rmatch (ignoreCase r) (source r) (l, [])")
    case (Cons z zs)
    then show ?thesis using rmatch_hd_length [of r l "[]" "fst z" "snd z" zs] assms by simp
  qed simp
  with Nil show ?case by simp
next
  case (Cons c cs)
  show ?case
  proof (cases "rmatch (ignoreCase r) (source r) (l, c # cs)")
    case Nil
    with Cons.prems have "exec_from r (c # l) cs \<noteq> None" by simp
    from Cons.IH [OF this] Nil show ?thesis by simp
  next
    case (Cons z zs)
    obtain l' s' where z: "z = (l', s')" by (cases z)
    from rmatch_hd_length [of r l "c # cs" l' s' zs] Cons z assms
    show ?thesis by simp
  qed
qed

lemma js_replace_no_match: "\<not> occurs r s \<Longrightarrow> js_replace s r rep = s"
  by (simp add: js_replace_def occurs_def replace_loop_no_match replace_first_no_match)

lemma js_replace_length:
  "1 \<le> minlen (source r) \<Longrightarrow> length rep \<le> minlen (source r) \<Longrightarrow> length (js_replace s r rep) \<le> length s"
  using replace_loop_length [of r rep 0 s "[]"] replace_first_length [of rep r "[]" s]
  by (simp add: js_replace_def)

lemma js_replace_shorter:
  "length rep < minlen (source r) \<Longrightarrow> occurs r s \<Longrightarrow> length (js_replace s r rep) < length s"
  using replace_loop_shorter [of rep r "[]" s] replace_first_shorter [of rep r "[]" s]
  by (simp add: js_replace_def occurs_def)

lemma js_replace_changes_iff:
  "length rep < minlen (source r) \<Longrightarrow> (js_replace s r rep \<noteq> s) = occurs r s"
  using js_replace_shorter [of rep r s] js_replace_no_match [of r s rep] by auto

lemma occurs_empty: "1 \<le> minlen (source r) \<Longrightarrow> \<not> occurs r []"
proof -
  assume m: "1 \<le> minlen (source r)"
  have "rmatch (ignoreCase r) (source r) ([], []) = []"
  proof (cases "rmatch (ignoreCase r) (source r) ([], [])")
    case (Cons z zs)
    then show ?thesis using rmatch_hd_length [of r "[]" "[]" "fst z" "snd z" zs] m by simp
  qed simp
  then show ?thesis by (simp add: occurs_def)
qed

lemma regexp_test_zero: "fst (regexp_test r 0 s) = occurs r s"
  by (simp add: regexp_test_def occurs_def split: option.splits)

lemma regexp_test_not_global: "\<not> global r \<Longrightarrow> fst (regexp_test r li s) = occurs r s"
  by (simp add: regexp_test_def occurs_def split: option.splits)

lemma test_each_fst: "fst (test_each ps lis s) = (\<exists>p\<in>set ps. occurs p s)"
proof (induction ps arbitrary: lis)
  case Nil
  show ?case by simp
next
  case (Cons p ps)
  obtain b li where t: "regexp_test p 0 s = (b, li)" by (cases "regexp_test p 0 s")
  with regexp_test_zero [of p s] have b: "b = occurs p s" by simp
  obtain b' lis' where r: "test_each ps (tl lis) s = (b', lis')" by (cases "test_each ps (tl lis) s")
  with Cons.IH [of "tl lis"] have b': "b' = (\<exists>p\<in>set ps. occurs p s)" by simp
  show ?case using t r b b' by (cases b) simp_all
qed

section \<open>The patterns and the loops over them\<close>

declare in_cset.simps [simp del]

lemma js_space: "js '' '' = [0x20]"
  by (simp add: js_def)

lemma channel_minlen: "1 \<le> minlen (source CHANNEL_METADATA_PATTERN)"
  by (simp add: CHANNEL_METADATA_PATTERN_def js_def)

lemma channel_not_global: "\<not> global CHANNEL_METADATA_PATTERN"
  by (simp add: CHANNEL_METADATA_PATTERN_def)

lemma timestamp_minlen: "\<forall>p\<in>set TIMESTAMP_PATTERNS. 2 \<le> minlen (source p)"
  by (simp add: TIMESTAMP_PATTERNS_def digits_def js_def)

lemma user_id_minlen: "\<forall>p\<in>set USER_ID_PATTERNS. 2 \<le> minlen (source p)"
  by (simp add: USER_ID_PATTERNS_def js_def)

lemma json_minlen: "\<forall>p\<in>set JSON_ARTIFACT_PATTERNS. 2 \<le> minlen (source p)"
  by (simp add: JSON_ARTIFACT_PATTERNS_def js_def)

lemma replace_each_no_match:
  "\<forall>p\<in>set ps. \<not> occurs p s \<Longrightarrow> replace_each ps s = s"
  by (induction ps arbitrary: s) (simp_all add: js_replace_no_match)

lemma replace_each_length:
  "\<forall>p\<in>set ps. 2 \<le> minlen (source p) \<Longrightarrow> length (replace_each ps s) \<le> length s"
proof (induction ps arbitrary: s)
  case Nil
  show ?case by simp
next
  case (Cons p ps)
  then have "2 \<le> minlen (source p)" by simp
  then have "length (js_replace s p (js '' '')) \<le> length s"
    using js_replace_length [of p "js '' ''" s] by (simp add: js_space)
  moreover have "length (replace_each ps (js_replace s p (js '' ''))) \<le> length (js_replace s p (js '' ''))"
    using Cons by simp
  ultimately show ?case by simp
qed

lemma replace_each_shorter:
  "\<forall>p\<in>set ps. 2 \<le> minlen (source p) \<Longrightarrow> \<exists>p\<in>set ps. occurs p s \<Longrightarrow>
   length (replace_each ps s) < length s"
proof (induction ps arbitrary: s)
  case Nil
  then show ?case by simp
next
  case (Cons p ps)
  then have m: "2 \<le> minlen (source p)" and ms: "\<forall>p\<in>set ps. 2 \<le> minlen (source p)" by simp_all
  show ?case
  proof (cases "occurs p s")
    case True
    with m have "length (js_replace s p (js '' '')) < length s"
      using js_replace_shorter [of "js '' ''" p s] by (simp add: js_space)
    moreover have "length (replace_each ps (js_replace s p (js '' ''))) \<le> length (js_replace s p (js '' ''))"
      using replace_each_length [OF ms] .
    ultimately show ?thesis by simp
  next
    case False
    with Cons.prems have "\<exists>p\<in>set ps. occurs p s" by simp
    from Cons.IH [OF ms this] False show ?thesis by (simp add: js_replace_no_match)
  qed
qed

lemma needsSanitization_iff:
  "fst (needsSanitization st (Str q)) =
     (occurs CHANNEL_METADATA_PATTERN q
      \<or> (\<exists>p\<in>set TIMESTAMP_PATTERNS. occurs p q)
      \<or> (\<exists>p\<in>set USER_ID_PATTERNS. occurs p q)
      \<or> (\<exists>p\<in>set JSON_ARTIFACT_PATTERNS. occurs p q))"
proof (cases "q = []")
  case True
  have "\<not> occurs CHANNEL_METADATA_PATTERN []"
    using occurs_empty [OF channel_minlen] .
  moreover have "\<forall>p\<in>set TIMESTAMP_PATTERNS. \<not> occurs p []"
    using timestamp_minlen occurs_empty by fastforce
  moreover have "\<forall>p\<in>set USER_ID_PATTERNS. \<not> occurs p []"
    using user_id_minlen occurs_empty by fastforce
  moreover have "\<forall>p\<in>set JSON_ARTIFACT_PATTERNS. \<not> occurs p []"
    using json_minlen occurs_empty by fastforce
  ultimately show ?thesis using True by (simp add: needsSanitization_def)
next
  case False
  obtain c ci where c: "regexp_test CHANNEL_METADATA_PATTERN (li_channel st) q = (c, ci)"
    by (cases "regexp_test CHANNEL_METADATA_PATTERN (li_channel st) q")
  obtain t ti where t: "test_each TIMESTAMP_PATTERNS (li_timestamp st) q = (t, ti)"
    by (cases "test_each TIMESTAMP_PATTERNS (li_timestamp st) q")
  obtain u ui where u: "test_each USER_ID_PATTERNS (li_user_id st) q = (u, ui)"
    by (cases "test_each USER_ID_PATTERNS (li_user_id st) q")
  obtain j ji where j: "test_each JSON_ARTIFACT_PATTERNS (li_json st) q = (j, ji)"
    by (cases "test_each JSON_ARTIFACT_PATTERNS (li_json st) q")
  have "c = occurs CHANNEL_METADATA_PATTERN q"
    using regexp_test_not_global [OF channel_not_global, of "li_channel st" q] c by simp
  moreover have "t = (\<exists>p\<in>set TIMESTAMP_PATTERNS. occurs p q)"
    using test_each_fst [of TIMESTAMP_PATTERNS "li_timestamp st" q] t by simp
  moreover have "u = (\<exists>p\<in>set USER_ID_PATTERNS. occurs p q)"
    using test_each_fst [of USER_ID_PATTERNS "li_user_id st" q] u by simp
  moreover have "j = (\<exists>p\<in>set JSON_ARTIFACT_PATTERNS. occurs p q)"
    using test_each_fst [of JSON_ARTIFACT_PATTERNS "li_json st" q] j by simp
  moreover have "fst (needsSanitization st (Str q)) = (c \<or> t \<or> u \<or> j)"
    using False c t u j by (cases c; cases t; cases u; cases j) (simp_all add: needsSanitization_def)
  ultimately show ?thesis by simp
qed

lemma match_rep_greedy:
  "\<exists>rest. match_rep P 0 None l s = (rev (takeWhile (in_cset P) s) @ l, dropWhile (in_cset P) s) # rest"
proof (induction s arbitrary: l)
  case Nil
  show ?case by simp
next
  case (Cons c cs)
  show ?case
  proof (cases "in_cset P c")
    case True
    from Cons [of "c # l"] obtain rest where
      "match_rep P 0 None (c # l) cs = (rev (takeWhile (in_cset P) cs) @ c # l, dropWhile (in_cset P) cs) # rest"
      by blast
    with True show ?thesis by simp
  next
    case False
    then show ?thesis by simp
  qed
qed

lemma replace_loop_skip:
  "k \<le> length s \<Longrightarrow> replace_loop r rep k l s = replace_loop r rep 0 (rev (take k s) @ l) (drop k s)"
proof (induction s arbitrary: k l)
  case Nil
  then show ?case by simp
next
  case (Cons c cs)
  show ?case
  proof (cases k)
    case 0
    then show ?thesis by simp
  next
    case (Suc k')
    with Cons.prems have "k' \<le> length cs" by simp
    from Cons.IH [OF this, of "c # l"] Suc show ?thesis by simp
  qed
qed

lemma length_dropWhile_takeWhile:
  "length cs - length (dropWhile P cs) = length (takeWhile P cs)"
proof -
  have "length (takeWhile P cs @ dropWhile P cs) = length cs" by simp
  then show ?thesis by (simp del: takeWhile_dropWhile_id)
qed

lemma whitespace_step_space:
  assumes "in_cset CSpace c"
  shows "replace_loop WHITESPACE_RUN rep 0 l (c # cs) =
           rep @ replace_loop WHITESPACE_RUN rep 0 (rev (takeWhile (in_cset CSpace) cs) @ c # l)
                   (dropWhile (in_cset CSpace) cs)"
proof -
  from match_rep_greedy [of CSpace "c # l" cs] obtain rest where
    m: "match_rep CSpace 0 None (c # l) cs =
          (rev (takeWhile (in_cset CSpace) cs) @ c # l, dropWhile (in_cset CSpace) cs) # rest"
    by blast
  have le: "length (dropWhile (in_cset CSpace) cs) \<le> length cs"
    by (rule length_dropWhile_le)
  then have ne: "length (dropWhile (in_cset CSpace) cs) \<noteq> Suc (length cs)" by simp
  have k: "length cs - length (dropWhile (in_cset CSpace) cs) = length (takeWhile (in_cset CSpace) cs)"
    by (rule length_dropWhile_takeWhile)
  have "replace_loop WHITESPACE_RUN rep 0 l (c # cs) =
          rep @ replace_loop WHITESPACE_RUN rep (length (takeWhile (in_cset CSpace) cs)) (c # l) cs"
    using assms m ne k by (simp add: WHITESPACE_RUN_def)
  also have "replace_loop WHITESPACE_RUN rep (length (takeWhile (in_cset CSpace) cs)) (c # l) cs =
          replace_loop WHITESPACE_RUN rep 0
            (rev (take (length (takeWhile (in_cset CSpace) cs)) cs) @ c # l)
            (drop (length (takeWhile (in_cset CSpace) cs)) cs)"
    by (rule replace_loop_skip) (rule length_takeWhile_le)
  also have "take (length (takeWhile (in_cset CSpace) cs)) cs = takeWhile (in_cset CSpace) cs"
    by (rule takeWhile_eq_take [symmetric])
  also have "drop (length (takeWhile (in_cset CSpace) cs)) cs = dropWhile (in_cset CSpace) cs"
    by (rule dropWhile_eq_drop [symmetric])
  finally show ?thesis .
qed

lemma whitespace_step_other:
  "\<not> in_cset CSpace c \<Longrightarrow>
   replace_loop WHITESPACE_RUN rep 0 l (c # cs) = c # replace_loop WHITESPACE_RUN rep 0 (c # l) cs"
  by (simp add: WHITESPACE_RUN_def)

lemma whitespace_step_end: "replace_loop WHITESPACE_RUN rep 0 l [] = []"
  by (simp add: WHITESPACE_RUN_def)

lemma collapse_in_run: "collapse True s = collapse False (dropWhile (in_cset CSpace) s)"
  by (induction s) simp_all

lemma whitespace_replace_collapse:
  "replace_loop WHITESPACE_RUN (js '' '') 0 l s = collapse False s"
proof (induction "length s" arbitrary: s l rule: less_induct)
  case less
  show ?case
  proof (cases s)
    case Nil
    then show ?thesis by (simp add: WHITESPACE_RUN_def)
  next
    case (Cons c cs)
    show ?thesis
    proof (cases "in_cset CSpace c")
      case True
      have "length (dropWhile (in_cset CSpace) cs) < length s"
        using length_dropWhile_le [of "in_cset CSpace" cs] Cons by simp
      from less [OF this] True Cons show ?thesis
        by (simp only: whitespace_step_space [OF True] collapse.simps collapse_in_run js_space if_True if_False append_Cons append_Nil simp_thms)
    next
      case False
      have "length cs < length s" using Cons by simp
      from less [OF this] False Cons show ?thesis
        by (simp add: whitespace_step_other del: replace_loop.simps)
    qed
  qed
qed

lemma js_replace_whitespace: "js_replace s WHITESPACE_RUN (js '' '') = collapse False s"
  using whitespace_replace_collapse [of "[]" s] by (simp add: js_replace_def WHITESPACE_RUN_def)

lemma space_0x20: "in_cset CSpace 0x20"
  by (simp add: in_cset.simps)

lemma collapse_shape:
  "single_spaced (collapse b s) \<and> (b \<longrightarrow> collapse b s = [] \<or> \<not> in_cset CSpace (hd (collapse b s)))"
proof (induction s arbitrary: b)
  case Nil
  show ?case by simp
next
  case (Cons c cs)
  from Cons [of True] have t: "single_spaced (collapse True cs)"
    "collapse True cs = [] \<or> \<not> in_cset CSpace (hd (collapse True cs))" by simp_all
  from Cons [of False] have f: "single_spaced (collapse False cs)" by simp
  show ?case
  proof (cases "in_cset CSpace c")
    case True
    with t show ?thesis by (cases b) (simp_all add: space_0x20)
  next
    case False
    with f show ?thesis by simp
  qed
qed

lemma collapse_single_spaced: "single_spaced s \<Longrightarrow> collapse False s = s"
proof (induction s)
  case Nil
  show ?case by simp
next
  case (Cons c cs)
  then have ih: "collapse False cs = cs" by simp
  show ?case
  proof (cases "in_cset CSpace c")
    case True
    with Cons.prems have c: "c = 0x20" and n: "cs = [] \<or> \<not> in_cset CSpace (hd cs)" by simp_all
    from n have "dropWhile (in_cset CSpace) cs = cs" by (cases cs) auto
    with True c ih show ?thesis by (simp add: collapse_in_run)
  next
    case False
    with ih show ?thesis by simp
  qed
qed

lemma single_spaced_prefix: "single_spaced (a @ b) \<Longrightarrow> single_spaced a"
  by (induction a) auto

lemma single_spaced_dropWhile: "single_spaced s \<Longrightarrow> single_spaced (dropWhile P s)"
  by (induction s) auto

lemma trim_prefix:
  "dropWhile (in_cset CSpace) s =
     js_trim s @ rev (takeWhile (in_cset CSpace) (rev (dropWhile (in_cset CSpace) s)))"
proof -
  define t where "t = dropWhile (in_cset CSpace) s"
  have "rev (takeWhile (in_cset CSpace) (rev t) @ dropWhile (in_cset CSpace) (rev t)) = t"
    by (simp only: takeWhile_dropWhile_id rev_rev_ident)
  then have "rev (dropWhile (in_cset CSpace) (rev t)) @ rev (takeWhile (in_cset CSpace) (rev t)) = t"
    by (simp only: rev_append)
  then show ?thesis by (simp only: js_trim_def t_def)
qed

lemma single_spaced_trim: "single_spaced s \<Longrightarrow> single_spaced (js_trim s)"
proof -
  assume "single_spaced s"
  then have "single_spaced (dropWhile (in_cset CSpace) s)" by (rule single_spaced_dropWhile)
  then have "single_spaced (js_trim s @ rev (takeWhile (in_cset CSpace) (rev (dropWhile (in_cset CSpace) s))))"
    using trim_prefix [of s] by simp
  then show ?thesis by (rule single_spaced_prefix)
qed

lemma trim_no_leading_space: "dropWhile (in_cset CSpace) (js_trim s) = js_trim s"
proof (cases "js_trim s")
  case Nil
  then show ?thesis by simp
next
  case (Cons c cs)
  with trim_prefix [of s] have d: "dropWhile (in_cset CSpace) s =
      c # (cs @ rev (takeWhile (in_cset CSpace) (rev (dropWhile (in_cset CSpace) s))))"
    by simp
  then have "dropWhile (in_cset CSpace) s \<noteq> []" by (metis list.distinct(1))
  then have "\<not> in_cset CSpace (hd (dropWhile (in_cset CSpace) s))" by (rule hd_dropWhile)
  moreover from d have "hd (dropWhile (in_cset CSpace) s) = c" by (metis list.sel(1))
  ultimately have "\<not> in_cset CSpace c" by simp
  with Cons show ?thesis by simp
qed

lemma trim_idem: "js_trim (js_trim s) = js_trim s"
proof -
  have "js_trim (js_trim s) = rev (dropWhile (in_cset CSpace) (rev (js_trim s)))"
    by (simp add: js_trim_def [of "js_trim s"] trim_no_leading_space)
  also have "\<dots> = js_trim s"
    by (simp add: js_trim_def)
  finally show ?thesis .
qed

lemma normalize_idem:
  "js_trim (js_replace (js_trim (js_replace x WHITESPACE_RUN (js '' ''))) WHITESPACE_RUN (js '' ''))
   = js_trim (js_replace x WHITESPACE_RUN (js '' ''))"
proof -
  have "single_spaced (js_trim (collapse False x))"
    using collapse_shape [of False x] by (simp add: single_spaced_trim)
  then have "collapse False (js_trim (collapse False x)) = js_trim (collapse False x)"
    by (rule collapse_single_spaced)
  then show ?thesis by (simp add: js_replace_whitespace trim_idem)
qed

section \<open>The sanitizer with the fallback pattern\<close>

lemma js_trim_length: "length (js_trim s) \<le> length s"
proof -
  have "length (js_trim s) \<le> length (dropWhile (in_cset CSpace) s)"
    using length_dropWhile_le [of "in_cset CSpace" "rev (dropWhile (in_cset CSpace) s)"]
    by (simp add: js_trim_def)
  also have "\<dots> \<le> length s" by (rule length_dropWhile_le)
  finally show ?thesis .
qed

lemma whitespace_length: "length (js_replace s WHITESPACE_RUN (js '' '')) \<le> length s"
  using js_replace_length [of WHITESPACE_RUN "js '' ''" s]
  by (simp add: WHITESPACE_RUN_def js_space)

lemma scrub_length: "length (scrub x) \<le> length x"
proof -
  let ?t = "replace_each TIMESTAMP_PATTERNS x"
  let ?u = "replace_each USER_ID_PATTERNS ?t"
  let ?j = "replace_each JSON_ARTIFACT_PATTERNS ?u"
  have "length (scrub x) \<le> length (js_replace ?j WHITESPACE_RUN (js '' ''))"
    unfolding scrub_def by (rule js_trim_length)
  also have "\<dots> \<le> length ?j" by (rule whitespace_length)
  also have "\<dots> \<le> length ?u" by (rule replace_each_length [OF json_minlen])
  also have "\<dots> \<le> length ?t" by (rule replace_each_length [OF user_id_minlen])
  also have "\<dots> \<le> length x" by (rule replace_each_length [OF timestamp_minlen])
  finally show ?thesis .
qed

lemma scrub_shorter:
  assumes "(\<exists>p\<in>set TIMESTAMP_PATTERNS. occurs p x) \<or> (\<exists>p\<in>set USER_ID_PATTERNS. occurs p x)
           \<or> (\<exists>p\<in>set JSON_ARTIFACT_PATTERNS. occurs p x)"
  shows "length (scrub x) < length x"
proof -
  let ?t = "replace_each TIMESTAMP_PATTERNS x"
  let ?u = "replace_each USER_ID_PATTERNS ?t"
  let ?j = "replace_each JSON_ARTIFACT_PATTERNS ?u"
  have a: "length (scrub x) \<le> length ?j"
  proof -
    have "length (scrub x) \<le> length (js_replace ?j WHITESPACE_RUN (js '' ''))"
      unfolding scrub_def by (rule js_trim_length)
    also have "\<dots> \<le> length ?j" by (rule whitespace_length)
    finally show ?thesis .
  qed
  have j: "length ?j \<le> length ?u" by (rule replace_each_length [OF json_minlen])
  have u: "length ?u \<le> length ?t" by (rule replace_each_length [OF user_id_minlen])
  have t: "length ?t \<le> length x" by (rule replace_each_length [OF timestamp_minlen])
  show ?thesis
  proof (cases "\<exists>p\<in>set TIMESTAMP_PATTERNS. occurs p x")
    case True
    from replace_each_shorter [OF timestamp_minlen True] a j u show ?thesis by simp
  next
    case nt: False
    then have tid: "?t = x" by (simp add: replace_each_no_match)
    show ?thesis
    proof (cases "\<exists>p\<in>set USER_ID_PATTERNS. occurs p x")
      case True
      from replace_each_shorter [OF user_id_minlen True] tid a j show ?thesis by simp
    next
      case nu: False
      then have uid: "?u = x" using tid by (simp add: replace_each_no_match)
      from assms nt nu have "\<exists>p\<in>set JSON_ARTIFACT_PATTERNS. occurs p x" by simp
      from replace_each_shorter [OF json_minlen this] uid a show ?thesis by simp
    qed
  qed
qed

lemma fallback_length: "length (fallback_sanitize q) \<le> length q"
proof -
  have "length (fallback_sanitize q) \<le> length (js_replace q CHANNEL_METADATA_PATTERN [])"
    unfolding fallback_sanitize_def by (rule scrub_length)
  also have "\<dots> \<le> length q"
    using js_replace_length [OF channel_minlen, of "[]" q] by simp
  finally show ?thesis .
qed

lemma fallback_shorter:
  assumes "occurs CHANNEL_METADATA_PATTERN q
           \<or> (\<exists>p\<in>set TIMESTAMP_PATTERNS. occurs p q)
           \<or> (\<exists>p\<in>set USER_ID_PATTERNS. occurs p q)
           \<or> (\<exists>p\<in>set JSON_ARTIFACT_PATTERNS. occurs p q)"
  shows "length (fallback_sanitize q) < length q"
proof (cases "occurs CHANNEL_METADATA_PATTERN q")
  case True
  have "length (fallback_sanitize q) \<le> length (js_replace q CHANNEL_METADATA_PATTERN [])"
    unfolding fallback_sanitize_def by (rule scrub_length)
  also have "\<dots> < length q"
    using js_replace_shorter [of "[]" CHANNEL_METADATA_PATTERN q] channel_minlen True by simp
  finally show ?thesis .
next
  case False
  then have "js_replace q CHANNEL_METADATA_PATTERN [] = q" by (rule js_replace_no_match)
  moreover from False assms have "(\<exists>p\<in>set TIMESTAMP_PATTERNS. occurs p q)
      \<or> (\<exists>p\<in>set USER_ID_PATTERNS. occurs p q) \<or> (\<exists>p\<in>set JSON_ARTIFACT_PATTERNS. occurs p q)"
    by simp
  ultimately show ?thesis using scrub_shorter [of q] by (simp add: fallback_sanitize_def)
qed

lemma fallback_clean:
  assumes "\<not> occurs CHANNEL_METADATA_PATTERN q"
    and "\<forall>p\<in>set TIMESTAMP_PATTERNS. \<not> occurs p q"
    and "\<forall>p\<in>set USER_ID_PATTERNS. \<not> occurs p q"
    and "\<forall>p\<in>set JSON_ARTIFACT_PATTERNS. \<not> occurs p q"
  shows "fallback_sanitize q = js_trim (js_replace q WHITESPACE_RUN (js '' ''))"
  using assms by (simp add: fallback_sanitize_def scrub_def js_replace_no_match replace_each_no_match)

lemma fallback_normal:
  "js_trim (js_replace (fallback_sanitize q) WHITESPACE_RUN (js '' '')) = fallback_sanitize q"
  unfolding fallback_sanitize_def scrub_def by (rule normalize_idem)

lemma fallback_fixed_iff:
  "(fallback_sanitize (fallback_sanitize q) = fallback_sanitize q) =
     (\<not> fst (needsSanitization st (Str (fallback_sanitize q))))"
proof (cases "fst (needsSanitization st (Str (fallback_sanitize q)))")
  case True
  then have "length (fallback_sanitize (fallback_sanitize q)) < length (fallback_sanitize q)"
    using fallback_shorter [of "fallback_sanitize q"] by (simp add: needsSanitization_iff)
  then have "fallback_sanitize (fallback_sanitize q) \<noteq> fallback_sanitize q" by auto
  with True show ?thesis by simp
next
  case False
  then have "fallback_sanitize (fallback_sanitize q) =
      js_trim (js_replace (fallback_sanitize q) WHITESPACE_RUN (js '' ''))"
    using fallback_clean [of "fallback_sanitize q"] by (simp add: needsSanitization_iff)
  with False show ?thesis by (simp add: fallback_normal)
qed

lemma fallback_empty: "fallback_sanitize [] = []"
  using fallback_length [of "[]"] by simp

lemma sanitizeQuery_fallback:
  assumes "fst (getStripEnvelope host slot) = None"
  shows "sanitizeQuery host slot (Str q) =
           (Inr (fallback_sanitize q), if q = [] then slot else snd (getStripEnvelope host slot))"
proof (cases "q = []")
  case True
  then show ?thesis by (simp add: sanitizeQuery_def fallback_empty)
next
  case False
  obtain slot' where "getStripEnvelope host slot = (None, slot')"
    using assms by (cases "getStripEnvelope host slot") simp
  with False show ?thesis
    by (simp add: sanitizeQuery_def stripChannelEnvelope_def fallback_sanitize_def scrub_def)
qed

lemma getStripEnvelope_fallback_again:
  "fst (getStripEnvelope host slot) = None \<Longrightarrow>
   fst (getStripEnvelope host (snd (getStripEnvelope host slot))) = None"
  by (cases slot; cases host) (auto simp: getStripEnvelope_def split: option.splits)

section \<open>The handlers\<close>

lemma hook_call:
  assumes "p \<in> set (fst (snd (createBeforeAgentStartHandler host ctx slot prompt agentId sessionKey)))"
  shows "5 \<le> length prompt \<and> 3 \<le> length (sp_q p)
         \<and> fst (sanitizeQuery host slot (Str prompt)) = Inr (sp_q p)
         \<and> sp_containerTag p = resolveContainerTag (hc_config ctx) agentId sessionKey"
proof -
  obtain r slot' where s: "sanitizeQuery host slot (Str prompt) = (r, slot')"
    by (cases "sanitizeQuery host slot (Str prompt)")
  show ?thesis
    using assms s
    by (cases "hc_client ctx"; cases r)
       (auto simp: createBeforeAgentStartHandler_def Let_def split: if_splits sum.splits)
qed

lemma hook_short_prompt:
  "length prompt < 5 \<Longrightarrow>
   createBeforeAgentStartHandler host ctx slot prompt agentId sessionKey = (Void, [], slot)"
  by (cases "hc_client ctx") (auto simp: createBeforeAgentStartHandler_def)

lemma supermemory_tool_call:
  assumes "p \<in> set (fst (snd (createSupermemorySearchTool host ctx slot query limit)))"
  shows "2 \<le> length (sp_q p) \<and> fst (sanitizeQuery host slot (Str query)) = Inr (sp_q p)
         \<and> sp_containerTag p = resolveContainerTag (tc_config ctx) (Some (tc_agentId ctx)) None"
proof -
  obtain r slot' where s: "sanitizeQuery host slot (Str query) = (r, slot')"
    by (cases "sanitizeQuery host slot (Str query)")
  show ?thesis
    using assms s
    by (cases r) (auto simp: createSupermemorySearchTool_def Let_def split: if_splits sum.splits)
qed

lemma memory_tool_call:
  assumes "p \<in> set (fst (snd (createMemorySearchTool host ctx slot query limit)))"
  shows "2 \<le> length (sp_q p) \<and> fst (sanitizeQuery host slot (Str query)) = Inr (sp_q p)
         \<and> sp_containerTag p = resolveContainerTag (tc_config ctx) (Some (tc_agentId ctx)) None"
proof -
  obtain r slot' where s: "sanitizeQuery host slot (Str query) = (r, slot')"
    by (cases "sanitizeQuery host slot (Str query)")
  show ?thesis
    using assms s
    by (cases r) (auto simp: createMemorySearchTool_def Let_def split: if_splits sum.splits)
qed

lemma supermemory_tool_too_short:
  assumes "fst (sanitizeQuery host slot (Str query)) = Inr clean"
  shows "(fst (createSupermemorySearchTool host ctx slot query limit) = QueryTooShort query)
           = (length clean < 2)"
proof -
  obtain slot' where s: "sanitizeQuery host slot (Str query) = (Inr clean, slot')"
    using assms by (cases "sanitizeQuery host slot (Str query)") simp
  show ?thesis
    using s by (auto simp: createSupermemorySearchTool_def Let_def split: if_splits sum.splits)
qed

lemma memory_tool_too_short:
  assumes "fst (sanitizeQuery host slot (Str query)) = Inr clean"
  shows "(fst (createMemorySearchTool host ctx slot query limit) = QueryTooShort query)
           = (length clean < 2)"
proof -
  obtain slot' where s: "sanitizeQuery host slot (Str query) = (Inr clean, slot')"
    using assms by (cases "sanitizeQuery host slot (Str query)") simp
  show ?thesis
    using s by (auto simp: createMemorySearchTool_def Let_def split: if_splits sum.splits)
qed

lemma tool_tag_is_agent_level:
  "resolveContainerTag config (Some a) None =
     resolveContainerTag (config\<lparr>containerScope := Some (js ''agent'')\<rparr>) (Some a) k"
  by (simp add: resolveContainerTag_def agent_is_not_session)

lemma tool_tag_explicit:
  "a \<noteq> [] \<Longrightarrow> resolveContainerTag config (Some a) None = Some (spec_prefix (containerTag config) @ a)"
  by (simp add: resolveContainerTag_def prefix_is_spec_prefix Let_def)

section \<open>What needsSanitization answers\<close>

lemma family_changes_iff:
  assumes "\<forall>p\<in>set ps. 2 \<le> minlen (source p)"
  shows "(\<exists>p\<in>set ps. js_replace q p (js '' '') \<noteq> q) = (\<exists>p\<in>set ps. occurs p q)"
proof -
  have "\<forall>p\<in>set ps. (js_replace q p (js '' '') \<noteq> q) = occurs p q"
  proof
    fix p assume "p \<in> set ps"
    with assms have "length (js '' '') < minlen (source p)" by (auto simp: js_space)
    then show "(js_replace q p (js '' '') \<noteq> q) = occurs p q" by (rule js_replace_changes_iff)
  qed
  then show ?thesis by blast
qed

lemma channel_changes_iff:
  "(js_replace q CHANNEL_METADATA_PATTERN [] \<noteq> q) = occurs CHANNEL_METADATA_PATTERN q"
  using js_replace_changes_iff [of "[]" CHANNEL_METADATA_PATTERN q] channel_minlen by simp

text \<open>
  C6. For every string \<open>q\<close>, \<open>needsSanitization\<close> answers true exactly when one of
  the four families changes \<open>q\<close>: the envelope pattern replaced by the empty text, or
  a timestamp, identifier or JSON pattern replaced by a space, as \<open>sanitizeQuery\<close>
  replaces them. The answer does not depend on the \<open>lastIndex\<close> values it finds
  (\<open>st\<close> and \<open>st'\<close> are arbitrary), so a second call on the same string, which
  starts from the indices the first call left, gives the same answer.
\<close>

theorem needsSanitization_exact_and_stateless:
  "fst (needsSanitization st (Str q)) =
     (js_replace q CHANNEL_METADATA_PATTERN [] \<noteq> q
      \<or> (\<exists>p\<in>set TIMESTAMP_PATTERNS. js_replace q p (js '' '') \<noteq> q)
      \<or> (\<exists>p\<in>set USER_ID_PATTERNS. js_replace q p (js '' '') \<noteq> q)
      \<or> (\<exists>p\<in>set JSON_ARTIFACT_PATTERNS. js_replace q p (js '' '') \<noteq> q))
   \<and> fst (needsSanitization st' (Str q)) = fst (needsSanitization st (Str q))
   \<and> fst (needsSanitization (snd (needsSanitization st (Str q))) (Str q))
       = fst (needsSanitization st (Str q))"
  by (simp only: needsSanitization_iff channel_changes_iff
        family_changes_iff [OF timestamp_minlen] family_changes_iff [OF user_id_minlen]
        family_changes_iff [OF json_minlen] simp_thms)

lemma needs_id5:
  "fst (needsSanitization \<lparr>li_channel = 0, li_timestamp = [7, 0, 3], li_user_id = [2], li_json = []\<rparr>
          (Str (js ''what about id: 5'')))"
  by code_simp

lemma needs_hello:
  "\<not> fst (needsSanitization \<lparr>li_channel = 0, li_timestamp = [7, 0, 3], li_user_id = [2], li_json = []\<rparr>
          (Str (js ''hello world'')))"
  by code_simp

theorem needsSanitization_exact_and_stateless_witness:
  "js_replace (js ''hello world'') CHANNEL_METADATA_PATTERN [] = js ''hello world''
   \<and> \<not> (\<exists>p\<in>set USER_ID_PATTERNS. js_replace (js ''hello world'') p (js '' '') \<noteq> js ''hello world'')
   \<and> fst (needsSanitization \<lparr>li_channel = 9, li_timestamp = [], li_user_id = [1, 1], li_json = [4]\<rparr>
          (Str (js ''what about id: 5'')))"
  using needsSanitization_exact_and_stateless
    [of "\<lparr>li_channel = 0, li_timestamp = [7, 0, 3], li_user_id = [2], li_json = []\<rparr>"
        "js ''what about id: 5''"
        "\<lparr>li_channel = 9, li_timestamp = [], li_user_id = [1, 1], li_json = [4]\<rparr>"]
    needsSanitization_exact_and_stateless
    [of "\<lparr>li_channel = 0, li_timestamp = [7, 0, 3], li_user_id = [2], li_json = []\<rparr>"
        "js ''hello world''"]
    needs_id5 needs_hello
  by blast

section \<open>Sanitizing twice\<close>

lemma fallback_hello_world: "fallback_sanitize (js ''  hello   world  '') = js ''hello world''"
  by code_simp

lemma fallback_hello_world_again: "fallback_sanitize (js ''hello world'') = js ''hello world''"
  by code_simp

lemma host_absent: "fst (getStripEnvelope RequireThrows None) = None"
  by (simp add: getStripEnvelope_def)

lemma host_absent_cached: "fst (getStripEnvelope RequireThrows (Some None)) = None"
  by (simp add: getStripEnvelope_def)

text \<open>
  C3, as stated, fails. With the fallback pattern, \<open>2026-01-27 id:5 04:03\<close> is
  sanitized to \<open>2026-01-27 04:03\<close>: the identifier between the date and the time keeps
  the timestamp pattern from matching, and the identifier step runs after the timestamp
  step. Sanitizing that output removes the timestamp and gives the empty string.
\<close>

theorem sanitizeQuery_idempotent_counterexample:
  "fst (sanitizeQuery RequireThrows None (Str (js ''2026-01-27 id:5 04:03'')))
     = Inr (js ''2026-01-27 04:03'')
   \<and> fst (sanitizeQuery RequireThrows (Some None) (Str (js ''2026-01-27 04:03''))) = Inr []
   \<and> fst (sanitizeQuery RequireThrows (Some None) (Str (js ''2026-01-27 04:03'')))
     \<noteq> Inr (js ''2026-01-27 04:03'')"
  by code_simp

text \<open>
  C3, amended. When the envelope is stripped by the fallback pattern, sanitizing the
  output of \<open>sanitizeQuery\<close> again returns it unchanged exactly when
  \<open>needsSanitization\<close> is false on that output; and
  \<open>sanitizeQuery("  hello   world  ")\<close> is \<open>"hello world"\<close>.
\<close>

theorem sanitizeQuery_idempotent_when_clean:
  assumes "fst (getStripEnvelope host slot) = None"
  shows "(\<exists>clean slot'.
            sanitizeQuery host slot (Str q) = (Inr clean, slot')
            \<and> (fst (sanitizeQuery host slot' (Str clean)) = Inr clean)
                = (\<not> fst (needsSanitization st (Str clean))))
         \<and> fst (sanitizeQuery host slot (Str (js ''  hello   world  ''))) = Inr (js ''hello world'')"
proof -
  let ?slot' = "if q = [] then slot else snd (getStripEnvelope host slot)"
  have first: "sanitizeQuery host slot (Str q) = (Inr (fallback_sanitize q), ?slot')"
    by (rule sanitizeQuery_fallback [OF assms])
  have "fst (getStripEnvelope host ?slot') = None"
    using assms getStripEnvelope_fallback_again [OF assms] by simp
  then have "fst (sanitizeQuery host ?slot' (Str (fallback_sanitize q)))
               = Inr (fallback_sanitize (fallback_sanitize q))"
    by (simp only: sanitizeQuery_fallback fst_conv)
  then have "(fst (sanitizeQuery host ?slot' (Str (fallback_sanitize q))) = Inr (fallback_sanitize q))
               = (\<not> fst (needsSanitization st (Str (fallback_sanitize q))))"
    using fallback_fixed_iff [of q st] by simp
  with first have "\<exists>clean slot'.
      sanitizeQuery host slot (Str q) = (Inr clean, slot')
      \<and> (fst (sanitizeQuery host slot' (Str clean)) = Inr clean)
          = (\<not> fst (needsSanitization st (Str clean)))"
    by blast
  moreover have "fst (sanitizeQuery host slot (Str (js ''  hello   world  ''))) = Inr (js ''hello world'')"
    by (simp only: sanitizeQuery_fallback [OF assms] fst_conv fallback_hello_world)
  ultimately show ?thesis by blast
qed

lemma hello_world_needs_nothing:
  "\<not> fst (needsSanitization \<lparr>li_channel = 0, li_timestamp = [], li_user_id = [], li_json = []\<rparr>
          (Str (js ''hello world'')))"
  by code_simp

theorem sanitizeQuery_idempotent_when_clean_witness:
  "fst (getStripEnvelope RequireThrows None) = None
   \<and> sanitizeQuery RequireThrows None (Str (js ''  hello   world  ''))
       = (Inr (js ''hello world''), Some None)
   \<and> fst (sanitizeQuery RequireThrows (Some None) (Str (js ''hello world''))) = Inr (js ''hello world'')"
proof -
  have ne: "js ''  hello   world  '' \<noteq> []" by (simp add: js_def)
  have a: "sanitizeQuery RequireThrows None (Str (js ''  hello   world  ''))
             = (Inr (js ''hello world''), Some None)"
    by (simp add: sanitizeQuery_fallback [OF host_absent] fallback_hello_world getStripEnvelope_def ne)
  from sanitizeQuery_idempotent_when_clean
         [OF host_absent, of "js ''  hello   world  ''"
            "\<lparr>li_channel = 0, li_timestamp = [], li_user_id = [], li_json = []\<rparr>"]
  obtain clean slot' where
    c: "sanitizeQuery RequireThrows None (Str (js ''  hello   world  '')) = (Inr clean, slot')"
    and d: "(fst (sanitizeQuery RequireThrows slot' (Str clean)) = Inr clean)
              = (\<not> fst (needsSanitization
                          \<lparr>li_channel = 0, li_timestamp = [], li_user_id = [], li_json = []\<rparr>
                          (Str clean)))"
    by blast
  from a c have "clean = js ''hello world''" "slot' = Some None" by simp_all
  with d hello_world_needs_nothing
  have "fst (sanitizeQuery RequireThrows (Some None) (Str (js ''hello world''))) = Inr (js ''hello world'')"
    by simp
  with host_absent a show ?thesis by blast
qed

section \<open>What the output can contain\<close>






















section \<open>What the handlers send to the remote search\<close>

lemma fallback_abcd: "fallback_sanitize (js ''abcd'') = js ''abcd''"
  by code_simp

lemma fallback_space_abcd: "fallback_sanitize (js '' abcd'') = js ''abcd''"
  by code_simp

text \<open>
  C5, as stated, fails for the recall hook: it checks the size of the raw prompt before
  it sanitizes. The prompt \<open>abcd\<close> is dropped by that check, the sanitizer is not
  called (\<open>stripEnvelopeImpl\<close> is still \<open>undefined\<close>, which a call on a non-empty
  string would have changed), although its sanitized form \<open>abcd\<close> has the three code
  units the later check asks for; the prompt with one more space in front has the same
  sanitized form and is searched.
\<close>

theorem sanitize_before_size_check_counterexample:
  "createBeforeAgentStartHandler RequireThrows
     \<lparr>hc_client = Some (\<lambda>body. Inr \<lparr>resp_ok = True, resp_status = 200, resp_text = [],
                                     resp_json = \<lparr>results = (None :: unit supermemory_document_result list option)\<rparr>\<rparr>),
      hc_config = \<lparr>apiKey = js ''k'', mode = Tandem, containerTag = None,
                   containerScope = Some (js ''agent''), autoRecall = True, threshold = 1 / 2,
                   baseUrl = js ''https://api.supermemory.ai''\<rparr>\<rparr>
     None (js ''abcd'') (Some (js ''main'')) None
   = (Void, [], None)
   \<and> sanitizeQuery RequireThrows None (Str (js ''abcd'')) = (Inr (js ''abcd''), Some None)
   \<and> createBeforeAgentStartHandler RequireThrows
     \<lparr>hc_client = Some (\<lambda>body. Inr \<lparr>resp_ok = True, resp_status = 200, resp_text = [],
                                     resp_json = \<lparr>results = (None :: unit supermemory_document_result list option)\<rparr>\<rparr>),
      hc_config = \<lparr>apiKey = js ''k'', mode = Tandem, containerTag = None,
                   containerScope = Some (js ''agent''), autoRecall = True, threshold = 1 / 2,
                   baseUrl = js ''https://api.supermemory.ai''\<rparr>\<rparr>
     None (js '' abcd'') (Some (js ''main'')) None
   = (Void,
      [\<lparr>sp_q = js ''abcd'', sp_containerTag = Some (js ''main''), sp_limit = Some 5,
        sp_chunkThreshold = Some (1 / 2), sp_rewriteQuery = None\<rparr>],
      Some None)"
proof -
  have l4: "length (js ''abcd'') = 4" and l5: "length (js '' abcd'') = 5"
    and n4: "js ''abcd'' \<noteq> []" and n5: "js '' abcd'' \<noteq> []"
    by (simp_all add: js_def)
  have s4: "sanitizeQuery RequireThrows None (Str (js ''abcd'')) = (Inr (js ''abcd''), Some None)"
    by (simp add: sanitizeQuery_fallback [OF host_absent] fallback_abcd n4 getStripEnvelope_def)
  have s5: "sanitizeQuery RequireThrows None (Str (js '' abcd'')) = (Inr (js ''abcd''), Some None)"
    by (simp add: sanitizeQuery_fallback [OF host_absent] fallback_space_abcd n5 getStripEnvelope_def)
  have tag: "resolveContainerTag
       \<lparr>apiKey = js ''k'', mode = Tandem, containerTag = None,
        containerScope = Some (js ''agent''), autoRecall = True, threshold = 1 / 2,
        baseUrl = js ''https://api.supermemory.ai''\<rparr> (Some (js ''main'')) None = Some (js ''main'')"
    by (simp add: resolveContainerTag_def) (simp add: js_def)
  show ?thesis
    by (simp add: createBeforeAgentStartHandler_def l4 l5 n4 n5 s4 s5 tag search_def Let_def)
qed

text \<open>
  C5, amended. The recall hook first drops a prompt that is empty or shorter than five
  code units, without sanitizing it; after that it sanitizes, and a query it sends to
  the remote search is the sanitizer's output and has at least three code units. The
  two search tools sanitize first: they report a query as too short exactly when the
  sanitized query has fewer than two code units, and a query they send is the
  sanitizer's output.
\<close>

theorem dispatched_queries_are_sanitized:
  "(p \<in> set (fst (snd (createBeforeAgentStartHandler host hctx slot prompt agentId sessionKey)))
      \<longrightarrow> 5 \<le> length prompt
          \<and> fst (sanitizeQuery host slot (Str prompt)) = Inr (sp_q p)
          \<and> 3 \<le> length (sp_q p))
   \<and> (length prompt < 5
      \<longrightarrow> createBeforeAgentStartHandler host hctx slot prompt agentId sessionKey = (Void, [], slot))
   \<and> (p \<in> set (fst (snd (createSupermemorySearchTool host tctx slot query limit)))
      \<longrightarrow> fst (sanitizeQuery host slot (Str query)) = Inr (sp_q p) \<and> 2 \<le> length (sp_q p))
   \<and> (p \<in> set (fst (snd (createMemorySearchTool host tctx slot query limit)))
      \<longrightarrow> fst (sanitizeQuery host slot (Str query)) = Inr (sp_q p) \<and> 2 \<le> length (sp_q p))
   \<and> (fst (sanitizeQuery host slot (Str query)) = Inr clean
      \<longrightarrow> (fst (createSupermemorySearchTool host tctx slot query limit) = QueryTooShort query)
            = (length clean < 2)
          \<and> (fst (createMemorySearchTool host tctx slot query limit) = QueryTooShort query)
            = (length clean < 2))"
  using hook_call [of p host hctx slot prompt agentId sessionKey]
    hook_short_prompt [of prompt host hctx slot agentId sessionKey]
    supermemory_tool_call [of p host tctx slot query limit]
    memory_tool_call [of p host tctx slot query limit]
    supermemory_tool_too_short [of host slot query clean tctx limit]
    memory_tool_too_short [of host slot query clean tctx limit]
  by blast

lemma fallback_envelope_prefs:
  "fallback_sanitize (js ''[Telegram Ann id:123] find my preferences'') = js ''find my preferences''"
  by code_simp

lemma fallback_slack_x: "fallback_sanitize (js ''[Slack] x'') = js ''x''"
  by code_simp

theorem dispatched_queries_are_sanitized_witness:
  "fst (snd (createSupermemorySearchTool RequireThrows
     \<lparr>tc_client = (\<lambda>body. Inr \<lparr>resp_ok = True, resp_status = 200, resp_text = [],
                               resp_json = \<lparr>results = (None :: unit supermemory_document_result list option)\<rparr>\<rparr>),
      tc_config = \<lparr>apiKey = js ''k'', mode = Tandem, containerTag = None,
                   containerScope = Some (js ''agent''), autoRecall = True, threshold = 1 / 2,
                   baseUrl = js ''https://api.supermemory.ai''\<rparr>,
      tc_agentId = js ''main''\<rparr>
     None (js ''[Telegram Ann id:123] find my preferences'') None))
   = [\<lparr>sp_q = js ''find my preferences'', sp_containerTag = Some (js ''main''), sp_limit = Some 5,
       sp_chunkThreshold = Some (1 / 2), sp_rewriteQuery = None\<rparr>]
   \<and> fst (sanitizeQuery RequireThrows None (Str (js ''[Telegram Ann id:123] find my preferences'')))
     = Inr (js ''find my preferences'')
   \<and> 2 \<le> length (js ''find my preferences'')
   \<and> fst (createMemorySearchTool RequireThrows
     \<lparr>tc_client = (\<lambda>body. Inr \<lparr>resp_ok = True, resp_status = 200, resp_text = [],
                               resp_json = \<lparr>results = (None :: unit supermemory_document_result list option)\<rparr>\<rparr>),
      tc_config = \<lparr>apiKey = js ''k'', mode = Tandem, containerTag = None,
                   containerScope = Some (js ''agent''), autoRecall = True, threshold = 1 / 2,
                   baseUrl = js ''https://api.supermemory.ai''\<rparr>,
      tc_agentId = js ''main''\<rparr>
     None (js ''[Slack] x'') None)
     = QueryTooShort (js ''[Slack] x'')
   \<and> createBeforeAgentStartHandler RequireThrows
     \<lparr>hc_client = Some (\<lambda>body. Inr \<lparr>resp_ok = True, resp_status = 200, resp_text = [],
                                     resp_json = \<lparr>results = (None :: unit supermemory_document_result list option)\<rparr>\<rparr>),
      hc_config = \<lparr>apiKey = js ''k'', mode = Tandem, containerTag = None,
                   containerScope = Some (js ''agent''), autoRecall = True, threshold = 1 / 2,
                   baseUrl = js ''https://api.supermemory.ai''\<rparr>\<rparr>
     None (js ''hey'') (Some (js ''main'')) None
     = (Void, [], None)"
proof -
  let ?ctx = "\<lparr>tc_client = (\<lambda>body. Inr \<lparr>resp_ok = True, resp_status = 200, resp_text = [],
                               resp_json = \<lparr>results = (None :: unit supermemory_document_result list option)\<rparr>\<rparr>),
      tc_config = \<lparr>apiKey = js ''k'', mode = Tandem, containerTag = None,
                   containerScope = Some (js ''agent''), autoRecall = True, threshold = 1 / 2,
                   baseUrl = js ''https://api.supermemory.ai''\<rparr>,
      tc_agentId = js ''main''\<rparr>"
  let ?hctx = "\<lparr>hc_client = Some (\<lambda>body. Inr \<lparr>resp_ok = True, resp_status = 200, resp_text = [],
                                     resp_json = \<lparr>results = (None :: unit supermemory_document_result list option)\<rparr>\<rparr>),
      hc_config = \<lparr>apiKey = js ''k'', mode = Tandem, containerTag = None,
                   containerScope = Some (js ''agent''), autoRecall = True, threshold = 1 / 2,
                   baseUrl = js ''https://api.supermemory.ai''\<rparr>\<rparr>"
  let ?p = "\<lparr>sp_q = js ''find my preferences'', sp_containerTag = Some (js ''main''), sp_limit = Some 5,
       sp_chunkThreshold = Some (1 / 2), sp_rewriteQuery = None\<rparr>"
  have n: "js ''[Telegram Ann id:123] find my preferences'' \<noteq> []"
    and l: "length (js ''find my preferences'') = 19" and n2: "js ''find my preferences'' \<noteq> []"
    and nx: "js ''[Slack] x'' \<noteq> []" and lx: "length (js ''x'') < 2" and lh: "length (js ''hey'') < 5"
    by (simp_all add: js_def)
  have s: "sanitizeQuery RequireThrows None (Str (js ''[Telegram Ann id:123] find my preferences''))
             = (Inr (js ''find my preferences''), Some None)"
    by (simp add: sanitizeQuery_fallback [OF host_absent] fallback_envelope_prefs n getStripEnvelope_def)
  have sx: "fst (sanitizeQuery RequireThrows None (Str (js ''[Slack] x''))) = Inr (js ''x'')"
    by (simp add: sanitizeQuery_fallback [OF host_absent] fallback_slack_x)
  have tag: "resolveContainerTag
       \<lparr>apiKey = js ''k'', mode = Tandem, containerTag = None,
        containerScope = Some (js ''agent''), autoRecall = True, threshold = 1 / 2,
        baseUrl = js ''https://api.supermemory.ai''\<rparr> (Some (js ''main'')) None = Some (js ''main'')"
    by (simp add: resolveContainerTag_def) (simp add: js_def)
  have calls: "fst (snd (createSupermemorySearchTool RequireThrows ?ctx None
                 (js ''[Telegram Ann id:123] find my preferences'') None)) = [?p]"
    by (simp add: createSupermemorySearchTool_def s l n2 tag search_def Let_def)
  then have "?p \<in> set (fst (snd (createSupermemorySearchTool RequireThrows ?ctx None
                 (js ''[Telegram Ann id:123] find my preferences'') None)))"
    by simp
  with dispatched_queries_are_sanitized
         [of ?p RequireThrows _ None _ _ _ ?ctx "js ''[Telegram Ann id:123] find my preferences''" None]
  have a: "fst (sanitizeQuery RequireThrows None (Str (js ''[Telegram Ann id:123] find my preferences'')))
          = Inr (sp_q ?p) \<and> 2 \<le> length (sp_q ?p)"
    by blast
  from dispatched_queries_are_sanitized
         [of _ RequireThrows _ None _ _ _ ?ctx "js ''[Slack] x''" None "js ''x''"] sx lx
  have b: "fst (createMemorySearchTool RequireThrows ?ctx None (js ''[Slack] x'') None)
             = QueryTooShort (js ''[Slack] x'')"
    by blast
  from dispatched_queries_are_sanitized
         [of _ RequireThrows ?hctx None "js ''hey''" "Some (js ''main'')" None] lh
  have c: "createBeforeAgentStartHandler RequireThrows ?hctx None (js ''hey'') (Some (js ''main'')) None
             = (Void, [], None)"
    by blast
  from calls a b c show ?thesis by simp
qed

lemma plain_tool_sends_raw_query:
  "snd (createSupermemorySearchTool_plain ctx query limit) =
     [\<lparr>sp_q = query, sp_containerTag = containerTag (ptc_config ctx),
       sp_limit = Some (case limit of None \<Rightarrow> 5 | Some n \<Rightarrow> n),
       sp_chunkThreshold = Some (threshold (ptc_config ctx)), sp_rewriteQuery = None\<rparr>]"
  by (simp add: createSupermemorySearchTool_plain_def Let_def split: sum.splits)

lemma tool_tag_explicit_all:
  "resolveContainerTag config (Some a) None =
     (if a \<noteq> [] then Some (spec_prefix (containerTag config) @ a) else containerTag config)"
  by (simp add: resolveContainerTag_def prefix_is_spec_prefix Let_def)

lemma supermemory_tool_calls_exact:
  assumes "fst (sanitizeQuery host slot (Str query)) = Inr clean" and "2 \<le> length clean"
  shows "fst (snd (createSupermemorySearchTool host ctx slot query limit)) =
           [\<lparr>sp_q = clean,
             sp_containerTag = resolveContainerTag (tc_config ctx) (Some (tc_agentId ctx)) None,
             sp_limit = Some (case limit of None \<Rightarrow> 5 | Some n \<Rightarrow> n),
             sp_chunkThreshold = Some (threshold (tc_config ctx)), sp_rewriteQuery = None\<rparr>]"
proof -
  obtain slot' where s: "sanitizeQuery host slot (Str query) = (Inr clean, slot')"
    using assms(1) by (cases "sanitizeQuery host slot (Str query)") simp
  from assms(2) have "clean \<noteq> []" "\<not> length clean < 2" by auto
  then show ?thesis
    using s by (simp add: createSupermemorySearchTool_def Let_def split: sum.splits)
qed

lemma memory_tool_calls_exact:
  assumes "fst (sanitizeQuery host slot (Str query)) = Inr clean" and "2 \<le> length clean"
  shows "fst (snd (createMemorySearchTool host ctx slot query limit)) =
           [\<lparr>sp_q = clean,
             sp_containerTag = resolveContainerTag (tc_config ctx) (Some (tc_agentId ctx)) None,
             sp_limit = Some (case limit of None \<Rightarrow> 5 | Some n \<Rightarrow> n),
             sp_chunkThreshold = Some (threshold (tc_config ctx)), sp_rewriteQuery = None\<rparr>]"
proof -
  obtain slot' where s: "sanitizeQuery host slot (Str query) = (Inr clean, slot')"
    using assms(1) by (cases "sanitizeQuery host slot (Str query)") simp
  from assms(2) have "clean \<noteq> []" "\<not> length clean < 2" by auto
  then show ?thesis
    using s by (simp add: createMemorySearchTool_def Let_def split: sum.splits)
qed

text \<open>
  C10, as stated, fails when the agent id of the tool context is the empty string:
  under the scope \<open>session\<close> with the tag \<open>myns\<close> the search carries the bare tag
  \<open>myns\<close>, and \<open>prefix + agentId\<close> would be \<open>myns:\<close>.
\<close>

theorem tool_tag_empty_agent_counterexample:
  "map sp_containerTag (fst (snd (createSupermemorySearchTool RequireThrows
     \<lparr>tc_client = (\<lambda>body. Inr \<lparr>resp_ok = True, resp_status = 200, resp_text = [],
                               resp_json = \<lparr>results = (None :: unit supermemory_document_result list option)\<rparr>\<rparr>),
      tc_config = \<lparr>apiKey = js ''k'', mode = Tandem, containerTag = Some (js ''myns''),
                   containerScope = Some (js ''session''), autoRecall = True, threshold = 1 / 2,
                   baseUrl = js ''https://api.supermemory.ai''\<rparr>,
      tc_agentId = []\<rparr>
     None (js ''find my preferences'') None)))
   = [Some (js ''myns'')]
   \<and> spec_prefix (Some (js ''myns'')) @ [] = js ''myns:''
   \<and> Some (js ''myns'') \<noteq> Some (spec_prefix (Some (js ''myns'')) @ [])"
  by code_simp

text \<open>
  C10, amended. Each of the two tools, when the sanitized query has at least two code
  units, makes exactly one search, and its tag is the one \<open>resolveContainerTag\<close>
  gives for the agent id of the tool context and no session key: \<open>prefix + agentId\<close>
  when that agent id is not empty, the bare \<open>containerTag\<close> when it is. Every search
  a tool makes carries that tag. Whatever the scope, \<open>session\<close> included, it is the
  tag that the scope \<open>agent\<close> gives, for every session key a caller could have had:
  no session key enters it.
\<close>

theorem tool_search_uses_agent_level_tag:
  "(let tag = (if tc_agentId ctx \<noteq> []
               then Some (spec_prefix (containerTag (tc_config ctx)) @ tc_agentId ctx)
               else containerTag (tc_config ctx))
    in (fst (sanitizeQuery host slot (Str query)) = Inr clean \<and> 2 \<le> length clean
          \<longrightarrow> fst (snd (createSupermemorySearchTool host ctx slot query limit)) =
                [\<lparr>sp_q = clean, sp_containerTag = tag,
                  sp_limit = Some (case limit of None \<Rightarrow> 5 | Some n \<Rightarrow> n),
                  sp_chunkThreshold = Some (threshold (tc_config ctx)), sp_rewriteQuery = None\<rparr>]
              \<and> fst (snd (createMemorySearchTool host ctx slot query limit)) =
                [\<lparr>sp_q = clean, sp_containerTag = tag,
                  sp_limit = Some (case limit of None \<Rightarrow> 5 | Some n \<Rightarrow> n),
                  sp_chunkThreshold = Some (threshold (tc_config ctx)), sp_rewriteQuery = None\<rparr>])
       \<and> (p \<in> set (fst (snd (createSupermemorySearchTool host ctx slot query limit)))
            \<or> p \<in> set (fst (snd (createMemorySearchTool host ctx slot query limit)))
          \<longrightarrow> sp_containerTag p = tag)
       \<and> tag = resolveContainerTag (tc_config ctx) (Some (tc_agentId ctx)) None
       \<and> (\<forall>sessionKey.
             tag = resolveContainerTag ((tc_config ctx)\<lparr>containerScope := Some (js ''agent'')\<rparr>)
                     (Some (tc_agentId ctx)) sessionKey))"
proof -
  let ?tag = "resolveContainerTag (tc_config ctx) (Some (tc_agentId ctx)) None"
  have e: "(if tc_agentId ctx \<noteq> []
               then Some (spec_prefix (containerTag (tc_config ctx)) @ tc_agentId ctx)
               else containerTag (tc_config ctx)) = ?tag"
    by (simp only: tool_tag_explicit_all)
  have calls: "fst (sanitizeQuery host slot (Str query)) = Inr clean \<and> 2 \<le> length clean
          \<longrightarrow> fst (snd (createSupermemorySearchTool host ctx slot query limit)) =
                [\<lparr>sp_q = clean, sp_containerTag = ?tag,
                  sp_limit = Some (case limit of None \<Rightarrow> 5 | Some n \<Rightarrow> n),
                  sp_chunkThreshold = Some (threshold (tc_config ctx)), sp_rewriteQuery = None\<rparr>]
              \<and> fst (snd (createMemorySearchTool host ctx slot query limit)) =
                [\<lparr>sp_q = clean, sp_containerTag = ?tag,
                  sp_limit = Some (case limit of None \<Rightarrow> 5 | Some n \<Rightarrow> n),
                  sp_chunkThreshold = Some (threshold (tc_config ctx)), sp_rewriteQuery = None\<rparr>]"
    using supermemory_tool_calls_exact [of host slot query clean ctx limit]
      memory_tool_calls_exact [of host slot query clean ctx limit]
    by blast
  have every: "p \<in> set (fst (snd (createSupermemorySearchTool host ctx slot query limit)))
            \<or> p \<in> set (fst (snd (createMemorySearchTool host ctx slot query limit)))
          \<longrightarrow> sp_containerTag p = ?tag"
    using supermemory_tool_call [of p host ctx slot query limit]
      memory_tool_call [of p host ctx slot query limit]
    by blast
  have agent: "\<forall>sessionKey.
             ?tag = resolveContainerTag ((tc_config ctx)\<lparr>containerScope := Some (js ''agent'')\<rparr>)
                     (Some (tc_agentId ctx)) sessionKey"
    using tool_tag_is_agent_level [of "tc_config ctx" "tc_agentId ctx"] by blast
  from calls every agent show ?thesis
    unfolding Let_def e by blast
qed

theorem tool_search_uses_agent_level_tag_witness:
  "fst (snd (createSupermemorySearchTool RequireThrows
     \<lparr>tc_client = (\<lambda>body. Inr \<lparr>resp_ok = True, resp_status = 200, resp_text = [],
                               resp_json = \<lparr>results = (None :: unit supermemory_document_result list option)\<rparr>\<rparr>),
      tc_config = \<lparr>apiKey = js ''k'', mode = Tandem, containerTag = Some (js ''myns''),
                   containerScope = Some (js ''session''), autoRecall = True, threshold = 1 / 2,
                   baseUrl = js ''https://api.supermemory.ai''\<rparr>,
      tc_agentId = js ''main''\<rparr>
     None (js ''[Telegram Ann id:123] find my preferences'') None))
   = [\<lparr>sp_q = js ''find my preferences'', sp_containerTag = Some (js ''myns:main''),
       sp_limit = Some 5, sp_chunkThreshold = Some (1 / 2), sp_rewriteQuery = None\<rparr>]
   \<and> fst (snd (createMemorySearchTool RequireThrows
     \<lparr>tc_client = (\<lambda>body. Inr \<lparr>resp_ok = True, resp_status = 200, resp_text = [],
                               resp_json = \<lparr>results = (None :: unit supermemory_document_result list option)\<rparr>\<rparr>),
      tc_config = \<lparr>apiKey = js ''k'', mode = Tandem, containerTag = Some (js ''myns''),
                   containerScope = Some (js ''session''), autoRecall = True, threshold = 1 / 2,
                   baseUrl = js ''https://api.supermemory.ai''\<rparr>,
      tc_agentId = js ''main''\<rparr>
     None (js ''[Telegram Ann id:123] find my preferences'') None))
   = [\<lparr>sp_q = js ''find my preferences'', sp_containerTag = Some (js ''myns:main''),
       sp_limit = Some 5, sp_chunkThreshold = Some (1 / 2), sp_rewriteQuery = None\<rparr>]"
proof -
  let ?ctx = "\<lparr>tc_client = (\<lambda>body. Inr \<lparr>resp_ok = True, resp_status = 200, resp_text = [],
                               resp_json = \<lparr>results = (None :: unit supermemory_document_result list option)\<rparr>\<rparr>),
      tc_config = \<lparr>apiKey = js ''k'', mode = Tandem, containerTag = Some (js ''myns''),
                   containerScope = Some (js ''session''), autoRecall = True, threshold = 1 / 2,
                   baseUrl = js ''https://api.supermemory.ai''\<rparr>,
      tc_agentId = js ''main''\<rparr>"
  have s: "fst (sanitizeQuery RequireThrows None (Str (js ''[Telegram Ann id:123] find my preferences'')))
             = Inr (js ''find my preferences'')"
    by (simp add: sanitizeQuery_fallback [OF host_absent] fallback_envelope_prefs)
  have l: "2 \<le> length (js ''find my preferences'')"
    by (simp add: js_def)
  have m: "js ''main'' \<noteq> []"
    by (simp add: js_def)
  have tg: "spec_prefix (Some (js ''myns'')) @ js ''main'' = js ''myns:main''"
    by (simp add: spec_prefix_def js_def)
  from tool_search_uses_agent_level_tag
         [of ?ctx RequireThrows None "js ''[Telegram Ann id:123] find my preferences''"
             "js ''find my preferences''" None]
    s l m
  have "fst (snd (createSupermemorySearchTool RequireThrows ?ctx None
               (js ''[Telegram Ann id:123] find my preferences'') None))
          = [\<lparr>sp_q = js ''find my preferences'',
              sp_containerTag = Some (spec_prefix (Some (js ''myns'')) @ js ''main''),
              sp_limit = Some 5, sp_chunkThreshold = Some (1 / 2), sp_rewriteQuery = None\<rparr>]
        \<and> fst (snd (createMemorySearchTool RequireThrows ?ctx None
               (js ''[Telegram Ann id:123] find my preferences'') None))
          = [\<lparr>sp_q = js ''find my preferences'',
              sp_containerTag = Some (spec_prefix (Some (js ''myns'')) @ js ''main''),
              sp_limit = Some 5, sp_chunkThreshold = Some (1 / 2), sp_rewriteQuery = None\<rparr>]"
    by (simp add: Let_def)
  then show ?thesis by (simp only: tg)
qed

end
